theory Spec2Isabelle
  imports Main "HOL-Library.Sublist" "HOL-Library.AList" "HOL-Library.Multiset"
begin

section \<open>Strings and the regular expressions of automate.py\<close>

text \<open>
  Python strings are modelled as HOL strings, that is as sequences of characters with
  code points 0 to 255. On that range \<^verbatim>\<open>\d\<close> matches the ASCII digits only, and
  \<^verbatim>\<open>str.strip\<close> and \<^verbatim>\<open>\s\<close> treat the code points 9 to 13, 28 to 32, 133 and 160 as
  white space.
\<close>

definition is_digit :: "char \<Rightarrow> bool" where
  "is_digit c = (c \<in> set ''0123456789'')"

definition is_space :: "char \<Rightarrow> bool" where
  "is_space c = ((of_char c :: nat) \<in> set [9, 10, 11, 12, 13, 28, 29, 30, 31, 32, 133, 160])"

definition lstrip :: "string \<Rightarrow> string" where
  "lstrip s = dropWhile is_space s"

definition rstrip :: "string \<Rightarrow> string" where
  "rstrip s = rev (dropWhile is_space (rev s))"

definition strip :: "string \<Rightarrow> string" where
  "strip s = rstrip (lstrip s)"

text \<open>
  \<^verbatim>\<open>re.search\<close>: the least index at which the pattern matches. The pattern is given as a
  predicate on the text that starts at the index.
\<close>

fun re_search :: "(string \<Rightarrow> bool) \<Rightarrow> string \<Rightarrow> nat option" where
  "re_search P [] = (if P [] then Some 0 else None)"
| "re_search P (c # cs) = (if P (c # cs) then Some 0 else map_option Suc (re_search P cs))"

text \<open>A pattern that is a sequence of character classes, each matching one character.\<close>

fun match_seq :: "(char \<Rightarrow> bool) list \<Rightarrow> string \<Rightarrow> bool" where
  "match_seq [] s = True"
| "match_seq (p # ps) [] = False"
| "match_seq (p # ps) (c # cs) = (p c \<and> match_seq ps cs)"

text \<open>\<^verbatim>\<open>$\<close> without MULTILINE: the end of the text, or just before a final newline.\<close>

definition at_end :: "string \<Rightarrow> bool" where
  "at_end s = (s = [] \<or> s = [CHR 0x0A])"

text \<open>
  \<^verbatim>\<open> \(Fresh1G1R - [^)]+\)$\<close> at the start of \<open>s\<close>. The class \<^verbatim>\<open>[^)]+\<close> is greedy and cannot
  cross a closing parenthesis, so it ends at the first one. The result is the text that
  follows the match.
\<close>

definition match_fresh_suffix :: "string \<Rightarrow> string option" where
  "match_fresh_suffix s =
     (if prefix '' (Fresh1G1R - '' s then
        (let r = drop 14 s;
             body = takeWhile (\<lambda>c. c \<noteq> CHR '')'') r;
             rest = dropWhile (\<lambda>c. c \<noteq> CHR '')'') r
         in if body \<noteq> [] \<and> rest \<noteq> [] \<and> at_end (tl rest) then Some (tl rest) else None)
      else None)"

text \<open>
  \<^verbatim>\<open>re.sub(r' \(Fresh1G1R - [^)]+\)$', '', s)\<close>: a match ends at the end of the text or
  before its final newline, so there is at most one, the leftmost.
\<close>

definition sub_fresh_suffix :: "string \<Rightarrow> string" where
  "sub_fresh_suffix s =
     (case re_search (\<lambda>t. match_fresh_suffix t \<noteq> None) s of
        None \<Rightarrow> s
      | Some i \<Rightarrow> take i s @ the (match_fresh_suffix (drop i s)))"

text \<open>\<^verbatim>\<open>\(\d{8}-\d{6}\)\<close>\<close>

definition date_no_intro :: "(char \<Rightarrow> bool) list" where
  "date_no_intro =
     [(=) CHR ''(''] @ replicate 8 is_digit @ [(=) CHR ''-''] @ replicate 6 is_digit
     @ [(=) CHR '')'']"

text \<open>\<^verbatim>\<open>\(\d{4}-\d{2}-\d{2} \d{2}[-:]\d{2}[-:]\d{2}\)\<close>\<close>

definition dash_or_colon :: "char \<Rightarrow> bool" where
  "dash_or_colon c = (c = CHR ''-'' \<or> c = CHR '':'')"

definition date_redump :: "(char \<Rightarrow> bool) list" where
  "date_redump =
     [(=) CHR ''(''] @ replicate 4 is_digit @ [(=) CHR ''-''] @ replicate 2 is_digit
     @ [(=) CHR ''-''] @ replicate 2 is_digit @ [(=) CHR '' ''] @ replicate 2 is_digit
     @ [dash_or_colon] @ replicate 2 is_digit @ [dash_or_colon] @ replicate 2 is_digit
     @ [(=) CHR '')'']"

text \<open>
  \<^verbatim>\<open> - Datfile \(\d+\)\<close> at the start of \<open>s\<close>: the number of characters matched.
\<close>

definition match_datfile :: "string \<Rightarrow> nat option" where
  "match_datfile s =
     (if prefix '' - Datfile ('' s then
        (let r = drop 12 s;
             ds = takeWhile is_digit r;
             rest = dropWhile is_digit r
         in if ds \<noteq> [] \<and> prefix '')'' rest then Some (12 + length ds + 1) else None)
      else None)"

text \<open>
  \<^verbatim>\<open>re.sub(r' - Datfile \(\d+\)', '', s)\<close>: every match is removed, scanning from the left
  and resuming after each match.
\<close>

fun sub_datfile :: "string \<Rightarrow> string" where
  "sub_datfile [] = []"
| "sub_datfile (c # cs) =
     (case match_datfile (c # cs) of
        Some n \<Rightarrow> sub_datfile (drop (n - 1) cs)
      | None \<Rightarrow> c # sub_datfile cs)"

text \<open>
  \<^verbatim>\<open> \(Retool.*$\<close> at the start of \<open>s\<close>: the dot does not match a newline, so the match runs
  to the first newline, which must be the last character of the text. The result is the
  text that follows the match.
\<close>

definition match_retool :: "string \<Rightarrow> string option" where
  "match_retool s =
     (if prefix '' (Retool'' s then
        (let rest = dropWhile (\<lambda>c. c \<noteq> CHR 0x0A) (drop 8 s)
         in if at_end rest then Some rest else None)
      else None)"

definition sub_retool :: "string \<Rightarrow> string" where
  "sub_retool s =
     (case re_search (\<lambda>t. match_retool t \<noteq> None) s of
        None \<Rightarrow> s
      | Some i \<Rightarrow> take i s @ the (match_retool (drop i s)))"

section \<open>The filename normalizer\<close>

definition extract_system_name :: "string \<Rightarrow> string \<Rightarrow> string" where
  "extract_system_name filename_stem collection =
     (let filename_stem = sub_fresh_suffix filename_stem in
      if collection = ''no-intro'' then
        (case re_search (match_seq date_no_intro) filename_stem of
           Some i \<Rightarrow> strip (take i filename_stem)
         | None \<Rightarrow> filename_stem)
      else
        (let normalized = sub_datfile filename_stem in
         case re_search (match_seq date_redump) normalized of
           Some i \<Rightarrow> strip (take i normalized)
         | None \<Rightarrow> strip (sub_retool normalized)))"

section \<open>Reading the output of Retool\<close>

text \<open>\<^verbatim>\<open>needle in haystack\<close> on strings.\<close>

definition str_contains :: "string \<Rightarrow> string \<Rightarrow> bool" where
  "str_contains needle haystack = (re_search (prefix needle) haystack \<noteq> None)"

text \<open>
  \<^verbatim>\<open>str.replace\<close> for a non-empty \<open>old\<close>: the occurrences are replaced from the left,
  without overlap.
\<close>

fun str_replace :: "string \<Rightarrow> string \<Rightarrow> string \<Rightarrow> string" where
  "str_replace old new [] = []"
| "str_replace old new (c # cs) =
     (if prefix old (c # cs) then new @ str_replace old new (drop (length old - 1) cs)
      else c # str_replace old new cs)"

text \<open>\<^verbatim>\<open>str.split(sep)\<close> for a separator of one character.\<close>

fun split_on :: "char \<Rightarrow> string \<Rightarrow> string list" where
  "split_on sep [] = [[]]"
| "split_on sep (c # cs) =
     (if c = sep then [] # split_on sep cs
      else (case split_on sep cs of
              [] \<Rightarrow> [[c]]
            | l # ls \<Rightarrow> (c # l) # ls))"

text \<open>\<^verbatim>\<open>sep.join(parts)\<close>\<close>

fun str_join :: "string \<Rightarrow> string list \<Rightarrow> string" where
  "str_join sep [] = []"
| "str_join sep [x] = x"
| "str_join sep (x # y # ys) = x @ sep @ str_join sep (y # ys)"

definition in_range :: "nat \<Rightarrow> nat \<Rightarrow> char \<Rightarrow> bool" where
  "in_range lo hi c = (lo \<le> of_char c \<and> of_char c \<le> hi)"

text \<open>
  \<^verbatim>\<open>\x1B(?:[@-Z\\-_]|\[[0-?]*[ -/]*[@-~])\<close> at the start of \<open>s\<close>: the number of characters
  matched. The three classes of the second alternative are disjoint, so the greedy match is
  the only one.
\<close>

definition match_ansi :: "string \<Rightarrow> nat option" where
  "match_ansi s =
     (case s of
        e # c # r \<Rightarrow>
          if e \<noteq> CHR 0x1B then None
          else if in_range 0x40 0x5A c \<or> in_range 0x5C 0x5F c then Some 2
          else if c = CHR ''['' then
            (let r1 = dropWhile (in_range 0x30 0x3F) r;
                 r2 = dropWhile (in_range 0x20 0x2F) r1
             in case r2 of
                  [] \<Rightarrow> None
                | f # _ \<Rightarrow> if in_range 0x40 0x7E f then Some (length s - length r2 + 1) else None)
          else None
      | _ \<Rightarrow> None)"

fun sub_ansi :: "string \<Rightarrow> string" where
  "sub_ansi [] = []"
| "sub_ansi (c # cs) =
     (case match_ansi (c # cs) of
        Some n \<Rightarrow> sub_ansi (drop (n - 1) cs)
      | None \<Rightarrow> c # sub_ansi cs)"

text \<open>
  \<^verbatim>\<open>re.IGNORECASE\<close> against a pattern of ASCII letters: on the code points below 256 only
  the two ASCII cases of a letter match it.
\<close>

definition ascii_lower :: "char \<Rightarrow> char" where
  "ascii_lower c = (if in_range 0x41 0x5A c then char_of (of_char c + (32::nat)) else c)"

definition match_no_valid_titles :: "string \<Rightarrow> bool" where
  "match_no_valid_titles s =
     prefix (map ascii_lower ''No valid titles in input DAT file.'') (map ascii_lower s)"

text \<open>\<^verbatim>\<open>^[A-Z]:\\\<close>, a shell prompt such as \<^verbatim>\<open>C:\Users\<close>.\<close>

definition drive_prompt :: "(char \<Rightarrow> bool) list" where
  "drive_prompt = [in_range 0x41 0x5A, (=) CHR '':'', (=) CHR 0x5C]"

text \<open>
  \<^verbatim>\<open>strip_bullet_point\<close> removes a leading bullet (U+2022) with the white space after it,
  then strips. No text over the code points below 256 holds a bullet, so only the strip is
  left.
\<close>

definition strip_bullet_point :: "string \<Rightarrow> string" where
  "strip_bullet_point msg = strip msg"

text \<open>
  Lines 772 to 776: line ends are unified, NUL characters dropped, the text stripped and the
  ANSI escape codes removed.
\<close>

definition clean_output :: "string \<Rightarrow> string" where
  "clean_output output =
     sub_ansi (strip (str_replace [CHR 0x00] []
       (str_replace [CHR 0x0D] [CHR 0x0A]
         (str_replace [CHR 0x0D, CHR 0x0A] [CHR 0x0A] output))))"

text \<open>
  \<^verbatim>\<open>extract_retool_error\<close>. The fast path (the text names the missing valid titles) is
  modelled in full. What the function does with any other text (lines 798 to 834: the
  bulleted error section and the last plausible line) is the parameter \<open>other_shapes\<close>;
  every result below holds for each choice of it.
\<close>

definition extract_retool_error :: "(string \<Rightarrow> string) \<Rightarrow> string \<Rightarrow> string" where
  "extract_retool_error other_shapes output =
     (if output = [] then ''Retool failed (no output captured).''
      else
        let text = clean_output output
        in case re_search match_no_valid_titles text of
             Some start \<Rightarrow>
               (let tail = drop start text;
                    lines = map strip
                      (takeWhile (\<lambda>line. strip line \<noteq> [] \<and> \<not> match_seq drive_prompt (strip line))
                        (split_on (CHR 0x0A) tail));
                    result = str_join '' '' lines
                in strip_bullet_point result)
           | None \<Rightarrow> other_shapes text)"

section \<open>Paths, directories and the metadata store\<close>

text \<open>
  A path is modelled by its file name: every function below works inside one directory
  that its caller fixes. \<^verbatim>\<open>Path.suffix\<close> and \<^verbatim>\<open>Path.stem\<close> split a name at its last
  dot, unless that dot is the first or the last character.
\<close>

definition rfind_dot :: "string \<Rightarrow> nat option" where
  "rfind_dot name =
     (if CHR ''.'' \<in> set name
      then Some (length name - 1 - length (takeWhile (\<lambda>c. c \<noteq> CHR ''.'') (rev name)))
      else None)"

definition path_suffix :: "string \<Rightarrow> string" where
  "path_suffix name =
     (case rfind_dot name of
        Some i \<Rightarrow> if 0 < i \<and> i < length name - 1 then drop i name else []
      | None \<Rightarrow> [])"

definition path_stem :: "string \<Rightarrow> string" where
  "path_stem name =
     (case rfind_dot name of
        Some i \<Rightarrow> if 0 < i \<and> i < length name - 1 then take i name else name
      | None \<Rightarrow> name)"

text \<open>
  \<^verbatim>\<open>Path(p).name\<close> of a POSIX path given as text: its last component, where empty
  components and single dots do not count.
\<close>

definition path_name :: "string \<Rightarrow> string" where
  "path_name p =
     (case filter (\<lambda>c. c \<noteq> [] \<and> c \<noteq> ''.'') (split_on CHR ''/'' p) of
        [] \<Rightarrow> []
      | c # cs \<Rightarrow> last (c # cs))"

text \<open>
  A directory listing gives the names in the order the operating system yields them;
  \<^verbatim>\<open>glob("*.ext")\<close> keeps the names that end with the extension. Where the code reads
  modification times the listing pairs each name with its time, an integer.
\<close>

definition glob :: "string \<Rightarrow> string list \<Rightarrow> string list" where
  "glob ext names = filter (suffix ext) names"

type_synonym listing = "(string \<times> int) list"

definition glob_listing :: "string \<Rightarrow> listing \<Rightarrow> listing" where
  "glob_listing ext entries = filter (\<lambda>f. suffix ext (fst f)) entries"

text \<open>\<^verbatim>\<open>Path.unlink\<close> on a name of the directory.\<close>

definition unlink :: "string \<Rightarrow> string list \<Rightarrow> string list" where
  "unlink name names = filter (\<lambda>f. f \<noteq> name) names"

definition unlink_listing :: "string \<Rightarrow> listing \<Rightarrow> listing" where
  "unlink_listing name entries = filter (\<lambda>f. fst f \<noteq> name) entries"

text \<open>
  \<^verbatim>\<open>max(files, key=lambda p: p.stat().st_mtime)\<close>: the first file of the greatest
  modification time.
\<close>

fun max_mtime :: "string \<times> int \<Rightarrow> listing \<Rightarrow> string \<times> int" where
  "max_mtime best [] = best"
| "max_mtime best (f # fs) = max_mtime (if snd best < snd f then f else best) fs"

text \<open>
  A metadata entry as \<^verbatim>\<open>run_retool\<close> writes it, with the key \<^verbatim>\<open>input_path\<close> of the older
  format that \<^verbatim>\<open>check_if_already_processed\<close> still reads. The metadata file is UTF-8
  text, as the script writes it: it is absent, or \<open>Unreadable\<close> (it cannot be opened or
  read, an \<^verbatim>\<open>IOError\<close>, or its text is not JSON, a \<^verbatim>\<open>JSONDecodeError\<close>;
  \<^verbatim>\<open>load_metadata\<close> catches both and returns the empty dictionary), or a JSON object of such
  entries, kept as an association list in insertion order. A file that is not UTF-8 text
  makes \<^verbatim>\<open>json.load\<close> raise a \<^verbatim>\<open>UnicodeDecodeError\<close>, which \<^verbatim>\<open>load_metadata\<close> does not
  catch, and a JSON text of another shape makes the callers raise; such files are no values
  of \<open>meta_file\<close>, and no property below speaks of them.

  A directory lists the names of its entries, the metadata file apart, in \<open>files\<close>.
  \<open>other_paths\<close> holds the further paths that exist and that a metadata entry may record
  in place of a name: absolute paths and paths of several components (through \<^verbatim>\<open>..\<close> or a
  subdirectory), as they are written.
\<close>

record meta_entry =
  input_filename :: "string option"
  input_path :: "string option"
  output_path :: string

datatype meta_file = NoFile | Unreadable | Json "(string \<times> meta_entry) list"

record directory =
  files :: "string list"
  meta :: meta_file
  other_paths :: "string list"

definition mkdir :: "directory option \<Rightarrow> directory" where
  "mkdir d =
     (case d of
        None \<Rightarrow> \<lparr>files = [], meta = NoFile, other_paths = []\<rparr>
      | Some dir \<Rightarrow> dir)"

text \<open>
  \<^verbatim>\<open>(output_dat_dir / p).exists()\<close> for a directory that exists. Joining drops the empty
  components and the single dots of \<open>p\<close>: with none left the path is the directory itself,
  with one name left it is an entry of the directory (a listed name or the metadata file),
  and an absolute path replaces the directory.
\<close>

definition path_exists :: "directory \<Rightarrow> string \<Rightarrow> bool" where
  "path_exists dir p =
     (if prefix ''/'' p then p \<in> set (other_paths dir)
      else
        (case filter (\<lambda>c. c \<noteq> [] \<and> c \<noteq> ''.'') (split_on CHR ''/'' p) of
           [] \<Rightarrow> True
         | [n] \<Rightarrow>
             if n = ''..'' then True
             else n \<in> set (files dir) \<or> (n = ''.metadata.json'' \<and> meta dir \<noteq> NoFile)
         | n # ns \<Rightarrow> p \<in> set (other_paths dir)))"

definition load_metadata :: "directory option \<Rightarrow> (string \<times> meta_entry) list" where
  "load_metadata output_dat_dir =
     (case output_dat_dir of
        None \<Rightarrow> []
      | Some dir \<Rightarrow> (case meta dir of Json m \<Rightarrow> m | _ \<Rightarrow> []))"

text \<open>
  \<^verbatim>\<open>save_metadata\<close> writes the file; a write that fails, which the code only reports, is
  not modelled.
\<close>

definition save_metadata :: "directory option \<Rightarrow> (string \<times> meta_entry) list \<Rightarrow> directory" where
  "save_metadata output_dat_dir metadata = (mkdir output_dat_dir)\<lparr>meta := Json metadata\<rparr>"

section \<open>Running Retool on one DAT file\<close>

text \<open>
  The external tool is an oracle: from the command lines run so far and the present one it
  gives either the exception that \<^verbatim>\<open>subprocess.run\<close> raised, or the completed process
  with the contents of the temporary output directory after the run.
\<close>

record completed =
  returncode :: int
  stdout :: "string option"
  stderr :: "string option"
  temp_output_dir :: listing

datatype outcome = Raised string | Completed completed

record env =
  script_exists :: bool
  retool :: "string list list \<Rightarrow> string list \<Rightarrow> outcome"
  other_error_shapes :: "string \<Rightarrow> string"

record state =
  st_output_dat_dir :: "directory option"
  st_report_dir :: "listing option"
  st_calls :: "string list list"

definition str_or :: "string option \<Rightarrow> string \<Rightarrow> string" where
  "str_or x d = (case x of None \<Rightarrow> d | Some s \<Rightarrow> if s = [] then d else s)"

text \<open>Line 927: the combined output, \<^verbatim>\<open>(stdout or "") + "\n" + (stderr or "")\<close>.\<close>

definition retool_output :: "completed \<Rightarrow> string" where
  "retool_output result = str_or (stdout result) [] @ [CHR 0x0A] @ str_or (stderr result) []"

text \<open>
  The status of a completed run (lines 925 to 962 of \<^verbatim>\<open>run_retool\<close>): the returned
  DAT path, the report path, the status and the message.
\<close>

definition determine_status ::
  "(string \<Rightarrow> string) \<Rightarrow> completed \<Rightarrow> string option \<Rightarrow> string option \<Rightarrow>
   string option \<times> string option \<times> string \<times> string option" where
  "determine_status other_shapes result output_dat report_txt =
     (let retool_output = retool_output result;
          no_titles_match =
            (str_contains ''No titles in the input DAT match your preferences'' retool_output \<or>
             str_contains ''No DAT file has been created'' retool_output);
          no_valid_titles = str_contains ''No valid titles in input DAT file'' retool_output;
          err_msg = extract_retool_error other_shapes retool_output
      in if returncode result \<noteq> 0 then
           (if no_valid_titles then (None, report_txt, ''no_games'', Some err_msg)
            else if no_titles_match then (None, report_txt, ''not_required'', Some err_msg)
            else (output_dat, report_txt, ''failed'', Some err_msg))
         else if output_dat \<noteq> None then (output_dat, report_txt, ''success'', None)
         else if no_titles_match then (None, report_txt, ''not_required'', Some err_msg)
         else if no_valid_titles then (None, report_txt, ''no_games'', Some err_msg)
         else (None, report_txt, ''failed'', Some err_msg))"

text \<open>
  Lines 881 to 884: the constant name of the processed DAT of a system, with the suffix of
  the file that Retool produced.
\<close>

definition output_name :: "string \<Rightarrow> string \<Rightarrow> string \<Rightarrow> string" where
  "output_name system_name config_name dat_suffix =
     (if config_name \<noteq> []
      then system_name @ '' (Fresh1G1R - '' @ config_name @ '')'' @ dat_suffix
      else system_name @ dat_suffix)"

text \<open>
  Lines 874 to 904: the newest \<^verbatim>\<open>.dat\<close> of the temporary directory moves to its constant
  name in the output directory, replacing a file of that name, and the metadata entry of
  the system is rewritten.
\<close>

definition move_output_dat ::
  "string \<Rightarrow> string \<Rightarrow> string \<Rightarrow> listing \<Rightarrow> directory \<Rightarrow> string option \<times> directory" where
  "move_output_dat input_dat collection config_name output_files dir =
     (case output_files of
        [] \<Rightarrow> (None, dir)
      | f # fs \<Rightarrow>
          (let temp_dat = fst (max_mtime f fs);
               system_name = extract_system_name (path_stem input_dat) collection;
               new_name = output_name system_name config_name (path_suffix temp_dat);
               dir = (if new_name \<in> set (files dir)
                      then dir\<lparr>files := unlink new_name (files dir)\<rparr> else dir);
               dir = dir\<lparr>files := files dir @ [new_name]\<rparr>;
               metadata = load_metadata (Some dir);
               metadata = AList.update system_name
                 \<lparr>input_filename = Some input_dat, input_path = None, output_path = new_name\<rparr>
                 metadata
           in (Some new_name, save_metadata (Some dir) metadata)))"

text \<open>
  Lines 906 to 916: the newest report moves to the report directory under its own name.
\<close>

definition move_report :: "listing \<Rightarrow> listing option \<Rightarrow> string option \<times> listing option" where
  "move_report report_files reports =
     (case report_files of
        [] \<Rightarrow> (None, reports)
      | f # fs \<Rightarrow>
          (let temp_report = max_mtime f fs;
               entries = (case reports of None \<Rightarrow> [] | Some r \<Rightarrow> r)
           in (Some (fst temp_report),
               Some (unlink_listing (fst temp_report) entries @ [temp_report]))))"

definition run_retool ::
  "env \<Rightarrow> string \<Rightarrow> string list \<Rightarrow> string \<Rightarrow> string \<Rightarrow> string \<Rightarrow> state \<Rightarrow>
   (string option \<times> string option \<times> string \<times> string option) \<times> state" where
  "run_retool e input_dat retool_flags retool_exclude collection config_name st =
     (if \<not> script_exists e then ((None, None, ''failed'', Some ''Retool script not found.''), st)
      else
        let dir = mkdir (st_output_dat_dir st);
            cmd = [input_dat] @ retool_flags @ [''--exclude'', retool_exclude]
                  @ [''--output'', path_stem input_dat];
            run = retool e (st_calls st) cmd;
            st = st\<lparr>st_output_dat_dir := Some dir, st_calls := st_calls st @ [cmd]\<rparr>
        in case run of
             Raised msg \<Rightarrow> ((None, None, ''failed'', Some msg), st)
           | Completed result \<Rightarrow>
               (let (output_dat, dir) =
                      move_output_dat input_dat collection config_name
                        (glob_listing ''.dat'' (temp_output_dir result)) dir;
                    (report_txt, reports) =
                      move_report (glob_listing ''.txt'' (temp_output_dir result)) (st_report_dir st);
                    st = st\<lparr>st_output_dat_dir := Some dir, st_report_dir := reports\<rparr>
                in (determine_status (other_error_shapes e) result output_dat report_txt, st)))"

section \<open>Skipping what is already processed\<close>

definition ALWAYS_REPROCESS :: bool where
  "ALWAYS_REPROCESS = False"

text \<open>
  Lines 1063 to 1066: the stored input filename, taken from the older \<^verbatim>\<open>input_path\<close>
  when \<^verbatim>\<open>input_filename\<close> is missing or empty.
\<close>

definition stored_input_filename :: "meta_entry \<Rightarrow> string option" where
  "stored_input_filename entry =
     (if str_or (input_filename entry) [] = [] \<and> input_path entry \<noteq> None
      then Some (path_name (the (input_path entry)))
      else input_filename entry)"

definition check_if_already_processed :: "string \<Rightarrow> directory option \<Rightarrow> string \<Rightarrow> string option" where
  "check_if_already_processed input_dat output_dat_dir collection =
     (case output_dat_dir of
        None \<Rightarrow> None
      | Some dir \<Rightarrow>
          (let system_name = extract_system_name (path_stem input_dat) collection;
               metadata = load_metadata output_dat_dir
           in case map_of metadata system_name of
                None \<Rightarrow> None
              | Some entry \<Rightarrow>
                  if path_exists dir (output_path entry)
                  then (if str_or (stored_input_filename entry) [] \<noteq> [] \<and>
                           Some input_dat = stored_input_filename entry
                        then Some (output_path entry) else None)
                  else None))"

record results =
  successful :: "(string \<times> string \<times> string option) list"
  not_required :: "(string \<times> string) list"
  no_games :: "(string \<times> string) list"
  failed :: "(string \<times> string) list"
  skipped :: "(string \<times> string) list"

text \<open>The body of the loop of \<^verbatim>\<open>process_all_dats_with_retool\<close> (lines 1097 to 1142).\<close>

definition process_dat ::
  "env \<Rightarrow> string list \<Rightarrow> string \<Rightarrow> string \<Rightarrow> string \<Rightarrow> string \<Rightarrow> results \<times> state \<Rightarrow>
   results \<times> state" where
  "process_dat e retool_flags retool_exclude collection config_name dat_file rs =
     (let (res, st) = rs;
          existing_processed =
            (if \<not> ALWAYS_REPROCESS
             then check_if_already_processed dat_file (st_output_dat_dir st) collection else None)
      in case existing_processed of
           Some existing \<Rightarrow> (res\<lparr>skipped := skipped res @ [(dat_file, existing)]\<rparr>, st)
         | None \<Rightarrow>
             (let ((output_dat, report_txt, status, err_msg), st) =
                    run_retool e dat_file retool_flags retool_exclude collection config_name st
              in if status = ''success'' \<and> output_dat \<noteq> None then
                   (res\<lparr>successful := successful res @ [(dat_file, the output_dat, report_txt)]\<rparr>, st)
                 else if status = ''not_required'' then
                   (res\<lparr>not_required := not_required res @
                      [(dat_file, str_or err_msg
                         ''No titles in the input DAT match your preferences. No DAT file has been created.'')]\<rparr>,
                    st)
                 else if status = ''no_games'' then
                   (res\<lparr>no_games := no_games res @
                      [(dat_file, str_or err_msg ''No valid titles in input DAT file.'')]\<rparr>, st)
                 else
                   (res\<lparr>failed := failed res @ [(dat_file, str_or err_msg ''Retool failed.'')]\<rparr>, st)))"

definition process_all_dats_with_retool ::
  "env \<Rightarrow> string list \<Rightarrow> string list \<Rightarrow> string \<Rightarrow> string \<Rightarrow> string \<Rightarrow> state \<Rightarrow>
   results \<times> state" where
  "process_all_dats_with_retool e dat_files retool_flags retool_exclude collection config_name st =
     fold (process_dat e retool_flags retool_exclude collection config_name) dat_files
       (\<lparr>successful = [], not_required = [], no_games = [], failed = [], skipped = []\<rparr>, st)"

section \<open>Cleaning up\<close>

text \<open>
  Deleting a file can fail, and each cleanup function catches that failure for the file
  at hand and goes on. The parameter \<open>can_unlink\<close> says for which names
  \<^verbatim>\<open>Path.unlink\<close> succeeds.
\<close>

text \<open>
  \<^verbatim>\<open>cleanup_old_redump_dat\<close>. The caller passes the path of a file of \<open>output_dir\<close>, so
  the path is given by its name and exists when the directory lists it.
\<close>

definition cleanup_old_redump_dat ::
  "(string \<Rightarrow> bool) \<Rightarrow> string \<Rightarrow> string list \<Rightarrow> string list \<times> nat" where
  "cleanup_old_redump_dat can_unlink new_dat_path output_dir =
     (if new_dat_path \<notin> set output_dir then (output_dir, 0)
      else
        let new_system_name = extract_system_name (path_stem new_dat_path) ''redump'';
            all_dats = glob ''.dat'' output_dir
        in fold (\<lambda>old_dat (dir, removed_count).
                   if old_dat = new_dat_path then (dir, removed_count)
                   else if extract_system_name (path_stem old_dat) ''redump'' = new_system_name
                   then (if can_unlink old_dat then (unlink old_dat dir, removed_count + 1)
                         else (dir, removed_count))
                   else (dir, removed_count))
             all_dats (output_dir, 0))"

text \<open>
  The key under which \<^verbatim>\<open>cleanup_old_files\<close> groups a report (lines 1183 to 1198): for
  No-Intro the stem up to the end of the date, for Redump the stem without the Retool
  suffix.
\<close>

definition report_group_key :: "string \<Rightarrow> string \<Rightarrow> string" where
  "report_group_key collection name =
     (let stem = sub_fresh_suffix (path_stem name) in
      if collection = ''no-intro'' then
        (case re_search (match_seq date_no_intro) stem of
           Some i \<Rightarrow> take (i + length date_no_intro) stem
         | None \<Rightarrow> stem)
      else sub_retool stem)"

text \<open>Lines 1200 to 1202: the dictionary of groups, in insertion order.\<close>

definition add_to_group ::
  "string \<Rightarrow> string \<times> int \<Rightarrow> (string \<times> listing) list \<Rightarrow> (string \<times> listing) list" where
  "add_to_group collection file_path files_by_system =
     (let normalized_system = report_group_key collection (fst file_path);
          present = (case map_of files_by_system normalized_system of None \<Rightarrow> [] | Some fs \<Rightarrow> fs)
      in AList.update normalized_system (present @ [file_path]) files_by_system)"

text \<open>\<^verbatim>\<open>xs[k:]\<close> for a Python integer \<open>k\<close>: a negative \<open>k\<close> counts from the end.\<close>

definition slice_from :: "int \<Rightarrow> 'a list \<Rightarrow> 'a list" where
  "slice_from k xs = (if 0 \<le> k then drop (nat k) xs else drop (nat (int (length xs) + k)) xs)"

text \<open>Lines 1214 to 1219: the files of one group that go.\<close>

definition delete_files :: "(string \<Rightarrow> bool) \<Rightarrow> listing \<Rightarrow> listing \<times> nat \<Rightarrow> listing \<times> nat" where
  "delete_files can_unlink to_delete acc =
     fold (\<lambda>file_to_delete (entries, deleted_count).
             if can_unlink (fst file_to_delete)
             then (unlink_listing (fst file_to_delete) entries, deleted_count + 1)
             else (entries, deleted_count))
       to_delete acc"

text \<open>
  \<^verbatim>\<open>cleanup_old_files\<close>, for a pattern \<^verbatim>\<open>*ext\<close>. Python's sort is stable, also with
  \<^verbatim>\<open>reverse=True\<close>: files of equal time keep their order.
\<close>

definition cleanup_old_files ::
  "(string \<Rightarrow> bool) \<Rightarrow> listing option \<Rightarrow> string \<Rightarrow> int \<Rightarrow> string \<Rightarrow> listing option \<times> nat" where
  "cleanup_old_files can_unlink directory ext keep_count collection =
     (case directory of
        None \<Rightarrow> (None, 0)
      | Some entries \<Rightarrow>
          (let files = glob_listing ext entries in
           if length files = 0 then (directory, 0)
           else
             let files_by_system = fold (add_to_group collection) files [];
                 (entries, deleted_count) =
                   fold (\<lambda>(system_name, system_files) acc.
                           if int (length system_files) \<le> keep_count then acc
                           else delete_files can_unlink
                                  (slice_from keep_count (sort_key (\<lambda>p. - snd p) system_files)) acc)
                     files_by_system (entries, 0)
             in (Some entries, deleted_count)))"

text \<open>
  \<^verbatim>\<open>^(.+?) \(Fresh1G1R - [^)]+\)\.dat$\<close> on the name of an output file
  (\<^verbatim>\<open>cleanup_previous_dats\<close>, line 1246): the shortest non-empty system name, free of
  newlines, that the marker of a configuration and the extension follow.
\<close>

definition match_fresh_dat :: "string \<Rightarrow> bool" where
  "match_fresh_dat s =
     (prefix '' (Fresh1G1R - '' s \<and>
      (let r = drop 14 s;
           body = takeWhile (\<lambda>c. c \<noteq> CHR '')'') r;
           rest = dropWhile (\<lambda>c. c \<noteq> CHR '')'') r
       in body \<noteq> [] \<and> prefix '').dat'' rest \<and> at_end (drop 5 rest)))"

definition output_system_name :: "string \<Rightarrow> string option" where
  "output_system_name name =
     (case name of
        [] \<Rightarrow> None
      | c # cs \<Rightarrow>
          (case re_search match_fresh_dat cs of
             None \<Rightarrow> None
           | Some i \<Rightarrow>
               if CHR 0x0A \<in> set (take (Suc i) name) then None else Some (take (Suc i) name)))"

text \<open>
  \<^verbatim>\<open>cleanup_previous_dats\<close> (its arguments \<^verbatim>\<open>config_name\<close> and \<^verbatim>\<open>collection\<close> are only
  printed).
\<close>

definition forget_output ::
  "string \<Rightarrow> (string \<times> meta_entry) list \<Rightarrow> (string \<times> meta_entry) list" where
  "forget_output dat_file metadata =
     (case output_system_name dat_file of
        None \<Rightarrow> metadata
      | Some system_name \<Rightarrow>
          (case map_of metadata system_name of
             None \<Rightarrow> metadata
           | Some entry \<Rightarrow>
               if output_path entry = dat_file then AList.delete system_name metadata
               else metadata))"

definition cleanup_previous_dats ::
  "(string \<Rightarrow> bool) \<Rightarrow> directory option \<Rightarrow> string set \<Rightarrow> directory option" where
  "cleanup_previous_dats can_unlink output_dir preserve_files =
     (case output_dir of
        None \<Rightarrow> None
      | Some dir \<Rightarrow>
          (let dat_files = glob ''.dat'' (files dir);
               files_to_remove = filter (\<lambda>f. f \<notin> preserve_files) dat_files
           in if files_to_remove = [] then Some dir
              else
                let metadata = load_metadata output_dir;
                    (names, metadata) =
                      fold (\<lambda>dat_file (names, metadata).
                              if can_unlink dat_file
                              then (unlink dat_file names, forget_output dat_file metadata)
                              else (names, metadata))
                        files_to_remove (files dir, metadata);
                    dir = dir\<lparr>files := names\<rparr>
                in if metadata \<noteq> [] then Some (save_metadata (Some dir) metadata)
                   else if meta dir \<noteq> NoFile \<and> can_unlink ''.metadata.json''
                   then Some (dir\<lparr>meta := NoFile\<rparr>)
                   else Some dir))"

section \<open>The orchestrator and the exit code\<close>

text \<open>
  What \<^verbatim>\<open>main\<close> calls is given by the environment: each call returns a value or raises.
  \<^verbatim>\<open>sys.exit(n)\<close> leaves through both handlers of the script, since \<^verbatim>\<open>SystemExit\<close> is
  not an \<^verbatim>\<open>Exception\<close>.
\<close>

datatype exn = KeyboardInterrupt | Exception string

datatype 'a res = Returns 'a | Raises exn

datatype finish = Returned | SysExit int | Uncaught exn

text \<open>
  \<open>redump_dats\<close> and \<open>no_intro_dats\<close> stand for the acquisition of a collection: the
  files found in its directory when its download is skipped, the files downloaded otherwise.
  \<open>settings\<close> is \<^verbatim>\<open>preload_config_settings\<close>, with the output and report directories of each
  pair as they are when that pair is reached.
\<close>

record main_env =
  discover_configs :: "string list res"
  redump_dats :: "string list res"
  no_intro_dats :: "string list res"
  clone_retool_if_needed :: "bool res"
  prepare_retool :: "unit res"
  settings :: "((string \<times> string) \<times> string list \<times> string \<times> state) list res"
  tool :: env
  fault_while_processing :: "exn option"

definition DAT_COLLECTIONS :: "string list" where
  "DAT_COLLECTIONS = [''redump'', ''no-intro'']"

text \<open>
  The names that \<^verbatim>\<open>main\<close> preserves from the cleanup (lines 1381 to 1387): the names of
  the outputs that \<^verbatim>\<open>check_if_already_processed\<close> finds for the input files. An output
  path without a name of its own is the output directory, whose name is the collection
  and so the name of no \<^verbatim>\<open>.dat\<close> that the cleanup looks at; it gives the empty name here.
\<close>

definition existing_processed_files :: "string list \<Rightarrow> directory option \<Rightarrow> string \<Rightarrow> string set" where
  "existing_processed_files dat_files d collection =
     set (map path_name (List.map_filter
            (\<lambda>dat_file. check_if_already_processed dat_file d collection) dat_files))"

text \<open>
  Step 4 of \<^verbatim>\<open>main\<close> for one configuration and collection (lines 1358 to 1409), on the
  output and report directories of that pair.
\<close>

definition process_pair ::
  "(string \<Rightarrow> bool) \<Rightarrow> env \<Rightarrow> (string \<times> string list) list \<Rightarrow>
   (string \<times> string) \<times> string list \<times> string \<times> state \<Rightarrow> ((string \<times> string) \<times> results) list \<Rightarrow>
   ((string \<times> string) \<times> results) list" where
  "process_pair can_unlink e collection_dats setting all_results =
     (let ((config_name, collection), flags, exclude, st) = setting in
      case map_of collection_dats collection of
        None \<Rightarrow> all_results
      | Some collection_dat_files \<Rightarrow>
          (let st = st\<lparr>st_output_dat_dir := Some (mkdir (st_output_dat_dir st)),
                       st_report_dir := Some (case st_report_dir st of None \<Rightarrow> [] | Some r \<Rightarrow> r)\<rparr>;
               preserve_files =
                 (if \<not> ALWAYS_REPROCESS
                  then existing_processed_files collection_dat_files (st_output_dat_dir st) collection
                  else {});
               st = st\<lparr>st_output_dat_dir :=
                         cleanup_previous_dats can_unlink (st_output_dat_dir st) preserve_files\<rparr>;
               st = st\<lparr>st_report_dir :=
                         fst (cleanup_old_files can_unlink (st_report_dir st) ''.txt'' 7 collection)\<rparr>;
               (res, st) = process_all_dats_with_retool e collection_dat_files flags exclude
                             collection config_name st
           in AList.update (config_name, collection) res all_results))"

definition main :: "(string \<Rightarrow> bool) \<Rightarrow> main_env \<Rightarrow> finish" where
  "main can_unlink m =
     (case discover_configs m of
        Raises x \<Rightarrow> Uncaught x
      | Returns configs \<Rightarrow>
          if configs = [] then SysExit 1
          else
            (case (if ''redump'' \<in> set DAT_COLLECTIONS then redump_dats m else Returns []) of
               Raises x \<Rightarrow> Uncaught x
             | Returns redump \<Rightarrow>
                 (case (if ''no-intro'' \<in> set DAT_COLLECTIONS then no_intro_dats m
                        else Returns []) of
                    Raises x \<Rightarrow> Uncaught x
                  | Returns no_intro \<Rightarrow>
                      (let collection_dats =
                             (if redump \<noteq> [] then [(''redump'', redump)] else []) @
                             (if no_intro \<noteq> [] then [(''no-intro'', no_intro)] else []);
                           total_dats = sum_list (map (\<lambda>(c, dats). length dats) collection_dats)
                       in if total_dats = 0 then SysExit 1
                          else
                            (case clone_retool_if_needed m of
                               Raises x \<Rightarrow> Uncaught x
                             | Returns ok \<Rightarrow>
                                 if \<not> ok then SysExit 1
                                 else
                                   (case prepare_retool m of
                                      Raises x \<Rightarrow> Uncaught x
                                    | Returns u \<Rightarrow>
                                        (case settings m of
                                           Raises x \<Rightarrow> Uncaught x
                                         | Returns config_settings \<Rightarrow>
                                             (let all_results =
                                                    fold (process_pair can_unlink (tool m) collection_dats)
                                                      config_settings []
                                              in case fault_while_processing m of
                                                   Some x \<Rightarrow> Uncaught x
                                                 | None \<Rightarrow> Returned))))))))"

text \<open>The script's last lines (1453 to 1463): the exit code of the process.\<close>

definition exit_code :: "finish \<Rightarrow> int" where
  "exit_code f =
     (case f of
        Returned \<Rightarrow> 0
      | SysExit n \<Rightarrow> n
      | Uncaught KeyboardInterrupt \<Rightarrow> 1
      | Uncaught (Exception msg) \<Rightarrow> 1)"

section \<open>Predicates used to state the properties\<close>




text \<open>The line of Retool's output that the properties below speak of.\<close>

definition no_valid_line :: string where
  "no_valid_line = ''No valid titles in input DAT file. Reason: empty clone list''"

text \<open>The input files that a result holds, bucket after bucket.\<close>

definition bucket_inputs :: "results \<Rightarrow> string list" where
  "bucket_inputs res =
     map fst (successful res) @ map fst (not_required res) @ map fst (no_games res)
     @ map fst (failed res) @ map fst (skipped res)"

text \<open>
  The invariant of an output directory, for the configuration it belongs to. The metadata
  is canonical when its keys, the system names, are distinct and every entry records the
  constant name of its system, a file name. The directory is canonical when its listing
  repeats no name and its metadata is canonical. It holds one processed \<^verbatim>\<open>.dat\<close> per
  system when, moreover, every \<^verbatim>\<open>.dat\<close> it lists is the output that an entry records: a
  \<^verbatim>\<open>.dat\<close> under another name, such as the output of another configuration or of an older
  name of the system, breaks it.
\<close>

definition canonical_meta :: "string \<Rightarrow> (string \<times> meta_entry) list \<Rightarrow> bool" where
  "canonical_meta config_name metadata =
     (distinct (map fst metadata) \<and>
      list_all (\<lambda>kv. output_path (snd kv) = output_name (fst kv) config_name ''.dat'' \<and>
                     CHR ''/'' \<notin> set (output_path (snd kv))) metadata)"

definition canonical_dir :: "string \<Rightarrow> directory option \<Rightarrow> bool" where
  "canonical_dir config_name d =
     (case d of
        None \<Rightarrow> True
      | Some dir \<Rightarrow> distinct (files dir) \<and> canonical_meta config_name (load_metadata d))"

definition recorded :: "(string \<times> meta_entry) list \<Rightarrow> string \<Rightarrow> bool" where
  "recorded metadata f = (f \<in> set (map (\<lambda>kv. output_path (snd kv)) metadata))"

definition processed_dats :: "directory option \<Rightarrow> string list" where
  "processed_dats d = (case d of None \<Rightarrow> [] | Some dir \<Rightarrow> glob ''.dat'' (files dir))"

definition one_per_system :: "string \<Rightarrow> directory option \<Rightarrow> bool" where
  "one_per_system config_name d =
     (canonical_dir config_name d \<and> list_all (recorded (load_metadata d)) (processed_dats d))"

text \<open>
  The metadata entries of a system, and the processed \<^verbatim>\<open>.dat\<close> of a system: the listed
  files of its constant name.
\<close>

definition entries_of :: "string \<Rightarrow> directory option \<Rightarrow> (string \<times> meta_entry) list" where
  "entries_of system_name d = filter (\<lambda>kv. fst kv = system_name) (load_metadata d)"

definition dats_of :: "string \<Rightarrow> string \<Rightarrow> directory option \<Rightarrow> string list" where
  "dats_of config_name system_name d =
     filter (\<lambda>f. f = output_name system_name config_name ''.dat'') (processed_dats d)"

text \<open>
  The files of one group that \<^verbatim>\<open>cleanup_old_files\<close> sets out to delete (lines 1207 to
  1214).
\<close>

definition to_delete :: "int \<Rightarrow> listing \<Rightarrow> listing" where
  "to_delete keep g = (if int (length g) \<le> keep then []
                       else slice_from keep (sort_key (\<lambda>p. - snd p) g))"

section \<open>Properties of the string functions\<close>

lemma re_search_None: "re_search P s = None \<longleftrightarrow> (\<forall>i\<le>length s. \<not> P (drop i s))"
proof (induction s)
  case Nil
  then show ?case by simp
next
  case (Cons c cs)
  have "(\<forall>i\<le>Suc (length cs). \<not> P (drop i (c # cs))) \<longleftrightarrow>
        (\<not> P (c # cs) \<and> (\<forall>i\<le>length cs. \<not> P (drop i cs)))"
    (is "?L \<longleftrightarrow> ?R")
  proof
    assume l: ?L
    have "\<not> P (c # cs)" using l[rule_format, of 0] by simp
    moreover have "\<forall>i\<le>length cs. \<not> P (drop i cs)"
    proof (intro allI impI)
      fix i assume "i \<le> length cs"
      then show "\<not> P (drop i cs)" using l[rule_format, of "Suc i"] by simp
    qed
    ultimately show ?R by simp
  next
    assume r: ?R
    show ?L
    proof (intro allI impI)
      fix i assume "i \<le> Suc (length cs)"
      then show "\<not> P (drop i (c # cs))" using r by (cases i) auto
    qed
  qed
  with Cons show ?case by auto
qed

lemma re_search_None_Cons: "re_search P (c # cs) = None \<Longrightarrow> re_search P cs = None"
  by (simp split: if_splits)


lemma rstrip_Nil: "rstrip [] = []"
  by (simp add: rstrip_def)

lemma rstrip_Cons:
  "rstrip (x # xs) = (if is_space x \<and> rstrip xs = [] then [] else x # rstrip xs)"
  by (auto simp: rstrip_def dropWhile_append)

lemma rstrip_append:
  "rstrip (xs @ t) = (if rstrip t = [] then rstrip xs else xs @ rstrip t)"
  by (induction xs) (auto simp: rstrip_Cons rstrip_Nil)







lemma re_search_Some_least:
  "re_search P s = Some i \<Longrightarrow> i \<le> length s \<and> P (drop i s) \<and> (\<forall>j<i. \<not> P (drop j s))"
proof (induction s arbitrary: i)
  case Nil
  then show ?case by (simp split: if_splits)
next
  case (Cons c cs)
  show ?case
  proof (cases "P (c # cs)")
    case True
    with Cons.prems show ?thesis by simp
  next
    case False
    with Cons.prems obtain k where k: "re_search P cs = Some k" "i = Suc k" by auto
    from Cons.IH [OF k(1)] have ih: "k \<le> length cs" "P (drop k cs)" "\<forall>j<k. \<not> P (drop j cs)"
      by auto
    have "\<not> P (drop j (c # cs))" if "j < Suc k" for j
      using that False ih(3) by (cases j) auto
    with ih k show ?thesis by simp
  qed
qed

lemma re_search_sub:
  assumes ext: "\<And>u v. P u \<Longrightarrow> P (u @ v)"
    and none: "\<forall>j<b. \<not> P (drop j s)" and pe: "\<not> P []"
  shows "re_search P (drop a (take b s)) = None"
proof -
  have "\<not> P (drop i (drop a (take b s)))" if "i \<le> length (drop a (take b s))" for i
  proof
    assume p: "P (drop i (drop a (take b s)))"
    let ?k = "i + a"
    have d: "drop i (drop a (take b s)) = drop ?k (take b s)" by (simp add: add.commute)
    show False
    proof (cases "?k < b \<and> ?k < length s")
      case True
      have "drop ?k s = drop ?k (take b s @ drop b s)" by simp
      also have "\<dots> = drop ?k (take b s) @ drop b s"
        using True by (simp del: append_take_drop_id)
      finally have "P (drop ?k s)" using ext [OF p [unfolded d]] by simp
      with none True show False by blast
    next
      case False
      then have "drop ?k (take b s) = []" by auto
      with p d pe show False by simp
    qed
  qed
  then show ?thesis by (simp add: re_search_None)
qed

lemma strip_drop_take: "\<exists>a b. strip s = drop a (take b s)"
proof -
  obtain a where a: "lstrip s = drop a s"
    unfolding lstrip_def by (metis dropWhile_eq_drop)
  have "rstrip u = take (length u - length (takeWhile is_space (rev u))) u" for u
    unfolding rstrip_def dropWhile_eq_drop by (simp add: rev_drop)
  then obtain b where "rstrip (drop a s) = take b (drop a s)" by blast
  then have "strip s = drop a (take (b + a) s)"
    by (simp add: strip_def a take_drop)
  then show ?thesis by blast
qed




lemma not_contains_all:
  assumes "\<not> str_contains lit s" "lit \<noteq> []"
  shows "\<not> prefix lit (drop j s)"
proof (cases "j \<le> length s")
  case True
  with assms(1) show ?thesis by (auto simp: str_contains_def re_search_None)
next
  case False
  with assms(2) show ?thesis by simp
qed

lemma not_contains_sub:
  assumes "\<not> str_contains lit s" "lit \<noteq> []"
  shows "\<not> str_contains lit (drop a (take b s))"
proof -
  have "re_search (prefix lit) (drop a (take b s)) = None"
  proof (rule re_search_sub)
    show "prefix lit (u @ v)" if "prefix lit u" for u v using that by simp
    show "\<forall>j<b. \<not> prefix lit (drop j s)" using not_contains_all [OF assms] by blast
    show "\<not> prefix lit []" using assms(2) by simp
  qed
  then show ?thesis by (simp add: str_contains_def)
qed

lemma not_contains_strip:
  assumes "\<not> str_contains lit s" "lit \<noteq> []"
  shows "\<not> str_contains lit (strip s)"
  using strip_drop_take [of s] not_contains_sub [OF assms] by auto









section \<open>The filename normalizer: the example and idempotence\<close>

text \<open>
  C7: the normalizer maps the stem \<^verbatim>\<open>Sony - PlayStation (2025-10-23 18-11-28) - Datfile (77)\<close>
  of the collection \<^verbatim>\<open>redump\<close> to \<^verbatim>\<open>Sony - PlayStation\<close>.
\<close>

theorem extract_system_name_example:
  "extract_system_name ''Sony - PlayStation (2025-10-23 18-11-28) - Datfile (77)'' ''redump''
   = ''Sony - PlayStation''"
  by code_simp


text \<open>
  The other texts that the normalizer removes come back in the same way: a marker before
  the date of a No-Intro stem, a Datfile infix that the removal of another one puts
  together, and a Retool suffix before the date of a Redump stem are each removed only by
  the second application.
\<close>

lemma extract_system_name_marker_returns:
  "extract_system_name ''A (Fresh1G1R - x) (20251023-181128)'' ''no-intro'' = ''A (Fresh1G1R - x)'' \<and>
   extract_system_name ''A (Fresh1G1R - x)'' ''no-intro'' = ''A''"
  by code_simp

lemma extract_system_name_datfile_returns:
  "extract_system_name ''A - Dat - Datfile (1)file (2)'' ''redump'' = ''A - Datfile (2)'' \<and>
   extract_system_name ''A - Datfile (2)'' ''redump'' = ''A''"
  by code_simp

lemma extract_system_name_retool_returns:
  "extract_system_name ''A (Retool) (2025-10-23 18-11-28)'' ''redump'' = ''A (Retool)'' \<and>
   extract_system_name ''A (Retool)'' ''redump'' = ''A''"
  by code_simp



section \<open>The output of Retool: lemmas\<close>

lemma str_replace_skip:
  assumes "old \<noteq> []" "hd old \<notin> set xs"
  shows "str_replace old new (xs @ t) = xs @ str_replace old new t"
  using assms(2)
proof (induction xs)
  case Nil
  then show ?case by simp
next
  case (Cons c cs)
  from assms(1) obtain x ys where old: "old = x # ys" by (cases old) auto
  with Cons.prems have "x \<noteq> c" "hd old \<notin> set cs" by auto
  then show ?case using Cons.IH by (simp add: old)
qed

lemma match_ansi_None: "CHR 0x1B \<noteq> c \<Longrightarrow> match_ansi (c # s) = None"
  by (auto simp add: match_ansi_def split: list.splits)

lemma sub_ansi_skip: "CHR 0x1B \<notin> set xs \<Longrightarrow> sub_ansi (xs @ t) = xs @ sub_ansi t"
  by (induction xs) (simp_all add: match_ansi_None)

lemma split_on_skip: "sep \<notin> set xs \<Longrightarrow> split_on sep (xs @ sep # t) = xs # split_on sep t"
  by (induction xs) auto

lemma split_on_none: "sep \<notin> set xs \<Longrightarrow> split_on sep xs = [xs]"
  by (induction xs) auto

lemma line_facts:
  "CHR 0x0D \<notin> set no_valid_line" "CHR 0x00 \<notin> set no_valid_line"
  "CHR 0x1B \<notin> set no_valid_line" "CHR 0x0A \<notin> set no_valid_line"
  "strip no_valid_line = no_valid_line"
  "\<not> match_seq drive_prompt no_valid_line"
  "lstrip no_valid_line = no_valid_line"
  "rstrip no_valid_line = no_valid_line"
  "no_valid_line \<noteq> []"
  by code_simp+

lemma line_match: "match_no_valid_titles (no_valid_line @ t)"
proof -
  have "map ascii_lower no_valid_line =
        map ascii_lower ''No valid titles in input DAT file.'' @ '' reason: empty clone list''"
    by code_simp
  then show ?thesis by (simp add: match_no_valid_titles_def)
qed

lemma line_contains: "str_contains ''No valid titles in input DAT file'' (no_valid_line @ t)"
proof -
  have "prefix ''No valid titles in input DAT file'' (no_valid_line @ t)"
    by (simp add: no_valid_line_def)
  moreover have "no_valid_line @ t = hd no_valid_line # (tl no_valid_line @ t)"
    using line_facts(9) by (cases no_valid_line) auto
  ultimately show ?thesis
    unfolding str_contains_def by (metis re_search.simps(2) option.distinct(1))
qed

lemma is_space_LF: "is_space (CHR 0x0A)"
  by code_simp

lemma extract_unfold:
  assumes "out \<noteq> []"
    and "re_search match_no_valid_titles (clean_output out) = Some start"
  shows "extract_retool_error f out =
     strip_bullet_point (str_join '' '' (map strip
       (takeWhile (\<lambda>line. strip line \<noteq> [] \<and> \<not> match_seq drive_prompt (strip line))
          (split_on (CHR 0x0A) (drop start (clean_output out))))))"
  using assms by (simp add: extract_retool_error_def Let_def)

lemma split_on_nonempty: "split_on sep s \<noteq> []"
  by (induction s) (auto split: list.splits)

lemma str_contains_iff: "str_contains x s \<longleftrightarrow> (\<exists>i\<le>length s. prefix x (drop i s))"
  unfolding str_contains_def using re_search_None [of "prefix x" s] by auto

lemma str_contains_prefix:
  assumes "str_contains x s" "prefix m x"
  shows "str_contains m s"
  using assms unfolding str_contains_iff by (meson prefix_order.trans)

lemma retool_output_nonempty: "retool_output r \<noteq> []"
  by (simp add: retool_output_def)

lemma extract_line:
  assumes "out \<noteq> []"
    and "clean_output out = pre @ no_valid_line @ rest"
    and "re_search match_no_valid_titles (pre @ no_valid_line @ rest) = Some (length pre)"
    and "rest = [] \<or> (\<exists>t. rest = CHR 0x0A # t \<and> strip (hd (split_on (CHR 0x0A) t)) = [])"
  shows "extract_retool_error f out = no_valid_line"
proof -
  let ?X = no_valid_line
  let ?LF = "CHR 0x0A"
  have lines: "takeWhile (\<lambda>line. strip line \<noteq> [] \<and> \<not> match_seq drive_prompt (strip line))
                 (split_on ?LF (?X @ rest)) = [?X]"
    using assms(4)
  proof
    assume "rest = []"
    then show ?thesis
      using split_on_none [OF line_facts(4)] line_facts(5,6,9) by simp
  next
    assume "\<exists>t. rest = ?LF # t \<and> strip (hd (split_on ?LF t)) = []"
    then obtain t where t: "rest = ?LF # t" "strip (hd (split_on ?LF t)) = []" by blast
    obtain l ls where sp: "split_on ?LF t = l # ls"
      using split_on_nonempty [of ?LF t] by (cases "split_on ?LF t") auto
    with t(2) have "strip l = []" by simp
    then show ?thesis
      using split_on_skip [OF line_facts(4), of t] line_facts(5,6,9) sp by (simp add: t(1))
  qed
  have s: "re_search match_no_valid_titles (clean_output out) = Some (length pre)"
    using assms(2,3) by simp
  have "extract_retool_error f out = strip_bullet_point (str_join '' '' (map strip [?X]))"
    using extract_unfold [OF assms(1) s] lines by (simp add: assms(2))
  then show ?thesis
    using line_facts(5) by (simp add: strip_bullet_point_def)
qed

lemma move_output_dat_None:
  "fst (move_output_dat input_dat collection config_name output_files dir) = None \<longleftrightarrow> output_files = []"
  by (simp add: move_output_dat_def Let_def split: list.splits)

lemma run_retool_completed:
  assumes "script_exists e"
    and "retool e (st_calls st) ([input_dat] @ retool_flags @ [''--exclude'', retool_exclude]
           @ [''--output'', path_stem input_dat]) = Completed r"
  shows "fst (run_retool e input_dat retool_flags retool_exclude collection config_name st) =
     determine_status (other_error_shapes e) r
       (fst (move_output_dat input_dat collection config_name
          (glob_listing ''.dat'' (temp_output_dir r)) (mkdir (st_output_dat_dir st))))
       (fst (move_report (glob_listing ''.txt'' (temp_output_dir r)) (st_report_dir st)))"
  using assms by (simp add: run_retool_def Let_def split: prod.splits)

lemma determine_status_status:
  "fst (snd (snd (determine_status f r output_dat report_txt))) =
     (if returncode r \<noteq> 0 then
        (if str_contains ''No valid titles in input DAT file'' (retool_output r) then ''no_games''
         else if str_contains ''No titles in the input DAT match your preferences'' (retool_output r) \<or>
                 str_contains ''No DAT file has been created'' (retool_output r) then ''not_required''
         else ''failed'')
      else if output_dat \<noteq> None then ''success''
      else if str_contains ''No titles in the input DAT match your preferences'' (retool_output r) \<or>
                 str_contains ''No DAT file has been created'' (retool_output r) then ''not_required''
      else if str_contains ''No valid titles in input DAT file'' (retool_output r) then ''no_games''
      else ''failed'')"
  by (simp add: determine_status_def Let_def)

section \<open>The status of a run\<close>

text \<open>
  C1 as stated fails: a run that exits with status zero and produces a \<^verbatim>\<open>.dat\<close> is a
  success, also when its output holds the marker of no valid titles.
\<close>

theorem run_retool_success_before_markers:
  "str_contains ''No valid titles in input DAT file''
     (retool_output \<lparr>returncode = 0, stdout = Some ''No valid titles in input DAT file'',
        stderr = Some [], temp_output_dir = [(''out.dat'', 0)]\<rparr>) \<and>
   fst (snd (snd (fst (run_retool
      \<lparr>script_exists = True,
       retool = (\<lambda>calls cmd. Completed \<lparr>returncode = 0,
          stdout = Some ''No valid titles in input DAT file'', stderr = Some [],
          temp_output_dir = [(''out.dat'', 0)]\<rparr>),
       other_error_shapes = id\<rparr>
      ''in.dat'' [] [] ''redump'' ''cfg''
      \<lparr>st_output_dat_dir = None, st_report_dir = None, st_calls = []\<rparr>)))) = ''success''"
  by code_simp

text \<open>
  C1, amended: for every completed run of Retool, unless its exit status is zero, it left
  no \<^verbatim>\<open>.dat\<close> and its output holds both markers, the status is, in this order of priority:
  \<^verbatim>\<open>success\<close> when the exit status is zero and a \<^verbatim>\<open>.dat\<close> was produced; \<^verbatim>\<open>no_games\<close> when
  the output holds the marker of no valid titles; \<^verbatim>\<open>not_required\<close> when it holds a marker
  of nothing passing the filters; \<^verbatim>\<open>failed\<close> otherwise (a non-zero exit status, or a zero
  one with neither a \<^verbatim>\<open>.dat\<close> nor a marker).
\<close>

theorem run_retool_status:
  assumes "script_exists e"
    and "retool e (st_calls st) ([input_dat] @ retool_flags @ [''--exclude'', retool_exclude]
           @ [''--output'', path_stem input_dat]) = Completed r"
    and "\<not> (returncode r = 0 \<and> glob_listing ''.dat'' (temp_output_dir r) = [] \<and>
            str_contains ''No valid titles in input DAT file'' (retool_output r) \<and>
            (str_contains ''No titles in the input DAT match your preferences'' (retool_output r) \<or>
             str_contains ''No DAT file has been created'' (retool_output r)))"
  shows "fst (snd (snd (fst (run_retool e input_dat retool_flags retool_exclude collection config_name st)))) =
     (if returncode r = 0 \<and> glob_listing ''.dat'' (temp_output_dir r) \<noteq> [] then ''success''
      else if str_contains ''No valid titles in input DAT file'' (retool_output r) then ''no_games''
      else if str_contains ''No titles in the input DAT match your preferences'' (retool_output r) \<or>
              str_contains ''No DAT file has been created'' (retool_output r) then ''not_required''
      else ''failed'')"
proof -
  have "fst (move_output_dat input_dat collection config_name
          (glob_listing ''.dat'' (temp_output_dir r)) (mkdir (st_output_dat_dir st))) \<noteq> None
        \<longleftrightarrow> glob_listing ''.dat'' (temp_output_dir r) \<noteq> []"
    by (simp add: move_output_dat_None)
  then show ?thesis
    using assms(3) unfolding run_retool_completed [OF assms(1,2)] determine_status_status
    by auto
qed


theorem run_retool_status_witness:
  "script_exists \<lparr>script_exists = True,
       retool = (\<lambda>calls cmd. Completed \<lparr>returncode = 0,
          stdout = Some ''No valid titles in input DAT file'', stderr = Some [],
          temp_output_dir = [(''out.dat'', 0)]\<rparr>),
       other_error_shapes = id\<rparr> \<and>
   fst (snd (snd (fst (run_retool
      \<lparr>script_exists = True,
       retool = (\<lambda>calls cmd. Completed \<lparr>returncode = 0,
          stdout = Some ''No valid titles in input DAT file'', stderr = Some [],
          temp_output_dir = [(''out.dat'', 0)]\<rparr>),
       other_error_shapes = id\<rparr>
      ''in.dat'' [] [] ''redump'' ''cfg''
      \<lparr>st_output_dat_dir = None, st_report_dir = None, st_calls = []\<rparr>)))) = ''success''"
proof -
  let ?r = "\<lparr>returncode = 0, stdout = Some ''No valid titles in input DAT file'',
             stderr = Some [], temp_output_dir = [(''out.dat'', 0)]\<rparr>"
  let ?e = "\<lparr>script_exists = True, retool = (\<lambda>calls cmd. Completed ?r), other_error_shapes = id\<rparr>"
  let ?st = "\<lparr>st_output_dat_dir = None, st_report_dir = None, st_calls = []\<rparr>"
  have h1: "script_exists ?e" by simp
  have h2: "retool ?e (st_calls ?st) ([''in.dat''] @ [] @ [''--exclude'', []]
           @ [''--output'', path_stem ''in.dat'']) = Completed ?r" by simp
  have g: "glob_listing ''.dat'' (temp_output_dir ?r) \<noteq> []" by code_simp
  then have h3: "\<not> (returncode ?r = 0 \<and> glob_listing ''.dat'' (temp_output_dir ?r) = [] \<and>
            str_contains ''No valid titles in input DAT file'' (retool_output ?r) \<and>
            (str_contains ''No titles in the input DAT match your preferences'' (retool_output ?r) \<or>
             str_contains ''No DAT file has been created'' (retool_output ?r)))" by simp
  show ?thesis
    using run_retool_status [OF h1 h2 h3, of "''redump''" "''cfg''"] g by simp
qed

section \<open>The message of a run without valid titles\<close>

text \<open>
  C6 as stated fails: the lines that follow the marker line, up to the first blank line,
  are joined to the message.
\<close>

theorem run_retool_message_joins_lines:
  "snd (snd (snd (fst (run_retool
      \<lparr>script_exists = True,
       retool = (\<lambda>calls cmd. Completed \<lparr>returncode = 1,
          stdout = Some ''No valid titles in input DAT file. Reason: empty clone list'',
          stderr = Some ''Exiting'', temp_output_dir = []\<rparr>),
       other_error_shapes = id\<rparr>
      ''in.dat'' [] [] ''redump'' ''cfg''
      \<lparr>st_output_dat_dir = None, st_report_dir = None, st_calls = []\<rparr>))))
   \<noteq> Some ''No valid titles in input DAT file. Reason: empty clone list''"
  by code_simp

text \<open>
  C6, amended: for a completed run of Retool that left no \<^verbatim>\<open>.dat\<close> and whose combined output
  holds the line \<^verbatim>\<open>No valid titles in input DAT file. Reason: empty clone list\<close>: when, in
  the output as \<^verbatim>\<open>extract_retool_error\<close> cleans it, that line is the first text that reads
  \<^verbatim>\<open>No valid titles in input DAT file.\<close> in any case of its letters and is followed by the
  end of the text or by a blank line, and the exit status is not zero or the output holds no
  marker of nothing passing the filters, the status is \<^verbatim>\<open>no_games\<close> and the message is that
  line. What precedes the line does not matter.
\<close>

theorem run_retool_no_valid_titles:
  assumes "script_exists e"
    and "retool e (st_calls st) ([input_dat] @ retool_flags @ [''--exclude'', retool_exclude]
           @ [''--output'', path_stem input_dat]) = Completed r"
    and "glob_listing ''.dat'' (temp_output_dir r) = []"
    and "str_contains ''No valid titles in input DAT file. Reason: empty clone list''
           (retool_output r)"
    and "clean_output (retool_output r) =
           pre @ ''No valid titles in input DAT file. Reason: empty clone list'' @ rest"
    and "re_search match_no_valid_titles
           (pre @ ''No valid titles in input DAT file. Reason: empty clone list'' @ rest)
         = Some (length pre)"
    and "rest = [] \<or> (\<exists>t. rest = CHR 0x0A # t \<and> strip (hd (split_on (CHR 0x0A) t)) = [])"
    and "returncode r \<noteq> 0 \<or>
         \<not> (str_contains ''No titles in the input DAT match your preferences'' (retool_output r) \<or>
            str_contains ''No DAT file has been created'' (retool_output r))"
  shows "snd (snd (fst (run_retool e input_dat retool_flags retool_exclude collection config_name st)))
         = (''no_games'', Some ''No valid titles in input DAT file. Reason: empty clone list'')"
proof -
  have "prefix ''No valid titles in input DAT file''
          ''No valid titles in input DAT file. Reason: empty clone list''"
    by simp
  with assms(4) have c: "str_contains ''No valid titles in input DAT file'' (retool_output r)"
    by (rule str_contains_prefix)
  have m: "extract_retool_error (other_error_shapes e) (retool_output r) =
           ''No valid titles in input DAT file. Reason: empty clone list''"
    using extract_line [OF retool_output_nonempty, of r pre rest "other_error_shapes e"]
      assms(5,6,7)
    by (simp add: no_valid_line_def)
  have n: "fst (move_output_dat input_dat collection config_name
          (glob_listing ''.dat'' (temp_output_dir r)) (mkdir (st_output_dat_dir st))) = None"
    using assms(3) by (simp add: move_output_dat_None)
  show ?thesis
    unfolding run_retool_completed [OF assms(1,2)] n
    using c m assms(8) by (auto simp: determine_status_def Let_def)
qed

theorem run_retool_no_valid_titles_witness:
  "snd (snd (fst (run_retool
      \<lparr>script_exists = True,
       retool = (\<lambda>calls cmd. Completed \<lparr>returncode = 1,
          stdout = Some (''Retool 2.4'' @ [CHR 0x0A] @
             ''No valid titles in input DAT file. Reason: empty clone list'' @ [CHR 0x0A]),
          stderr = Some [], temp_output_dir = []\<rparr>),
       other_error_shapes = id\<rparr>
      ''in.dat'' [] [] ''redump'' ''cfg''
      \<lparr>st_output_dat_dir = None, st_report_dir = None, st_calls = []\<rparr>)))
   = (''no_games'', Some ''No valid titles in input DAT file. Reason: empty clone list'')"
proof -
  let ?r = "\<lparr>returncode = 1,
             stdout = Some (''Retool 2.4'' @ [CHR 0x0A] @
               ''No valid titles in input DAT file. Reason: empty clone list'' @ [CHR 0x0A]),
             stderr = Some [], temp_output_dir = []\<rparr>"
  let ?e = "\<lparr>script_exists = True, retool = (\<lambda>calls cmd. Completed ?r), other_error_shapes = id\<rparr>"
  let ?st = "\<lparr>st_output_dat_dir = None, st_report_dir = None, st_calls = []\<rparr>"
  have h1: "script_exists ?e" by simp
  have h2: "retool ?e (st_calls ?st) ([''in.dat''] @ [] @ [''--exclude'', []]
           @ [''--output'', path_stem ''in.dat'']) = Completed ?r" by simp
  have h3: "glob_listing ''.dat'' (temp_output_dir ?r) = []" by (simp add: glob_listing_def)
  have h4: "str_contains ''No valid titles in input DAT file. Reason: empty clone list''
              (retool_output ?r)" by code_simp
  have h5: "clean_output (retool_output ?r) =
      (''Retool 2.4'' @ [CHR 0x0A]) @
      ''No valid titles in input DAT file. Reason: empty clone list'' @ []"
    by code_simp
  have h6: "re_search match_no_valid_titles ((''Retool 2.4'' @ [CHR 0x0A]) @
      ''No valid titles in input DAT file. Reason: empty clone list'' @ [])
      = Some (length (''Retool 2.4'' @ [CHR 0x0A]))" by code_simp
  have h7: "([]::string) = [] \<or>
      (\<exists>t. ([]::string) = CHR 0x0A # t \<and> strip (hd (split_on (CHR 0x0A) t)) = [])" by simp
  have h8: "returncode ?r \<noteq> 0 \<or>
         \<not> (str_contains ''No titles in the input DAT match your preferences'' (retool_output ?r) \<or>
            str_contains ''No DAT file has been created'' (retool_output ?r))"
    by simp
  show ?thesis
    using run_retool_no_valid_titles [OF h1 h2 h3 h4 h5 h6 h7 h8, of "''redump''" "''cfg''"]
    by simp
qed

section \<open>Skipping and the buckets of a pass\<close>

lemma check_if_already_processed_iff:
  assumes "input_dat \<noteq> []"
  shows "check_if_already_processed input_dat d collection = Some p \<longleftrightarrow>
     (\<exists>dir entry. d = Some dir \<and>
        map_of (load_metadata d) (extract_system_name (path_stem input_dat) collection) = Some entry \<and>
        stored_input_filename entry = Some input_dat \<and>
        path_exists dir (output_path entry) \<and> p = output_path entry)"
  using assms
  by (auto simp: check_if_already_processed_def Let_def str_or_def split: option.splits)

lemma run_retool_calls:
  "script_exists e \<Longrightarrow>
   st_calls (snd (run_retool e input_dat fl ex collection config_name st)) =
   st_calls st @ [[input_dat] @ fl @ [''--exclude'', ex] @ [''--output'', path_stem input_dat]]"
  by (simp add: run_retool_def Let_def split: outcome.splits prod.splits)

lemma process_dat_skip:
  assumes "check_if_already_processed dat_file (st_output_dat_dir st) collection = Some p"
  shows "process_dat e fl ex collection config_name dat_file (res, st) =
         (res\<lparr>skipped := skipped res @ [(dat_file, p)]\<rparr>, st)"
  using assms by (simp add: process_dat_def ALWAYS_REPROCESS_def)

lemma process_dat_run:
  assumes "check_if_already_processed dat_file (st_output_dat_dir st) collection = None"
  shows "skipped (fst (process_dat e fl ex collection config_name dat_file (res, st))) = skipped res"
    and "snd (process_dat e fl ex collection config_name dat_file (res, st)) =
         snd (run_retool e dat_file fl ex collection config_name st)"
  using assms
  by (auto simp: process_dat_def ALWAYS_REPROCESS_def Let_def split: prod.splits)


lemma process_dat_inputs:
  "mset (bucket_inputs (fst (process_dat e fl ex collection config_name dat_file rs))) =
   mset (bucket_inputs (fst rs)) + {#dat_file#}"
  by (cases rs)
     (auto simp: process_dat_def bucket_inputs_def Let_def split: option.splits prod.splits)

lemma fold_process_dat_inputs:
  "mset (bucket_inputs (fst (fold (process_dat e fl ex collection config_name) dat_files rs))) =
   mset (bucket_inputs (fst rs)) + mset dat_files"
  by (induction dat_files arbitrary: rs) (simp_all add: process_dat_inputs)


text \<open>
  C2: with \<^verbatim>\<open>ALWAYS_REPROCESS\<close> as the script sets it, a pass skips an input DAT file
  exactly when the metadata store has an entry for its normalized system name, the stored
  input filename of that entry is the name of the input, and the recorded output file
  exists: the path that the entry records, joined to the output directory, exists
  (\<open>path_exists\<close>; an empty path or a single dot is the directory itself). The metadata
  file is one of those that \<open>meta_file\<close> describes. The pass then records the input with
  the recorded output path under \<^verbatim>\<open>skipped\<close> and leaves the state as it is, so Retool is
  not run. In every other case nothing is added to \<^verbatim>\<open>skipped\<close> and the state is the one
  \<^verbatim>\<open>run_retool\<close> leaves: the file is reprocessed, with one more run of Retool when its
  script exists.
\<close>

theorem process_dat_skips_iff_up_to_date:
  assumes "dat_file \<noteq> []"
  shows "(\<forall>p. (\<exists>dir entry. st_output_dat_dir st = Some dir \<and>
            map_of (load_metadata (Some dir)) (extract_system_name (path_stem dat_file) collection)
              = Some entry \<and>
            stored_input_filename entry = Some dat_file \<and>
            path_exists dir (output_path entry) \<and> p = output_path entry)
          \<longrightarrow> process_dat e fl ex collection config_name dat_file (res, st) =
                (res\<lparr>skipped := skipped res @ [(dat_file, p)]\<rparr>, st))
       \<and> (\<not> (\<exists>dir entry. st_output_dat_dir st = Some dir \<and>
            map_of (load_metadata (Some dir)) (extract_system_name (path_stem dat_file) collection)
              = Some entry \<and>
            stored_input_filename entry = Some dat_file \<and>
            path_exists dir (output_path entry))
          \<longrightarrow> skipped (fst (process_dat e fl ex collection config_name dat_file (res, st)))
                = skipped res \<and>
              snd (process_dat e fl ex collection config_name dat_file (res, st)) =
                snd (run_retool e dat_file fl ex collection config_name st) \<and>
              (script_exists e \<longrightarrow>
                 st_calls (snd (process_dat e fl ex collection config_name dat_file (res, st))) =
                 st_calls st @ [[dat_file] @ fl @ [''--exclude'', ex]
                                @ [''--output'', path_stem dat_file]]))"
proof (intro conjI allI impI)
  fix p
  assume "\<exists>dir entry. st_output_dat_dir st = Some dir \<and>
            map_of (load_metadata (Some dir)) (extract_system_name (path_stem dat_file) collection)
              = Some entry \<and>
            stored_input_filename entry = Some dat_file \<and>
            path_exists dir (output_path entry) \<and> p = output_path entry"
  then have "check_if_already_processed dat_file (st_output_dat_dir st) collection = Some p"
    using check_if_already_processed_iff [OF assms, of "st_output_dat_dir st" collection p]
    by auto
  then show "process_dat e fl ex collection config_name dat_file (res, st) =
             (res\<lparr>skipped := skipped res @ [(dat_file, p)]\<rparr>, st)"
    by (rule process_dat_skip)
next
  assume n: "\<not> (\<exists>dir entry. st_output_dat_dir st = Some dir \<and>
            map_of (load_metadata (Some dir)) (extract_system_name (path_stem dat_file) collection)
              = Some entry \<and>
            stored_input_filename entry = Some dat_file \<and>
            path_exists dir (output_path entry))"
  have c: "check_if_already_processed dat_file (st_output_dat_dir st) collection = None"
  proof (cases "check_if_already_processed dat_file (st_output_dat_dir st) collection")
    case None
    then show ?thesis .
  next
    case (Some p)
    then show ?thesis
      using check_if_already_processed_iff [OF assms, of "st_output_dat_dir st" collection p] n
      by auto
  qed
  show "skipped (fst (process_dat e fl ex collection config_name dat_file (res, st))) = skipped res"
    by (rule process_dat_run(1) [OF c])
  show s: "snd (process_dat e fl ex collection config_name dat_file (res, st)) =
        snd (run_retool e dat_file fl ex collection config_name st)"
    by (rule process_dat_run(2) [OF c])
  assume "script_exists e"
  then show "st_calls (snd (process_dat e fl ex collection config_name dat_file (res, st))) =
                 st_calls st @ [[dat_file] @ fl @ [''--exclude'', ex]
                                @ [''--output'', path_stem dat_file]]"
    unfolding s by (rule run_retool_calls)
qed

theorem process_dat_skips_iff_up_to_date_witness:
  "''Sony - PlayStation (2025-10-23 18-11-28) - Datfile (77).dat'' \<noteq> [] \<and>
   process_dat
     \<lparr>script_exists = True,
      retool = (\<lambda>calls cmd. Raised ''unused''),
      other_error_shapes = id\<rparr>
     [] [] ''redump'' ''cfg''
     ''Sony - PlayStation (2025-10-23 18-11-28) - Datfile (77).dat''
     (\<lparr>successful = [], not_required = [], no_games = [], failed = [], skipped = []\<rparr>,
      \<lparr>st_output_dat_dir = Some \<lparr>files = [''Sony - PlayStation (Fresh1G1R - cfg).dat''],
         meta = Json [(''Sony - PlayStation'',
           \<lparr>input_filename = Some ''Sony - PlayStation (2025-10-23 18-11-28) - Datfile (77).dat'',
            input_path = None, output_path = ''Sony - PlayStation (Fresh1G1R - cfg).dat''\<rparr>)],
         other_paths = []\<rparr>,
       st_report_dir = None, st_calls = []\<rparr>)
   = (\<lparr>successful = [], not_required = [], no_games = [], failed = [],
       skipped = [(''Sony - PlayStation (2025-10-23 18-11-28) - Datfile (77).dat'',
                   ''Sony - PlayStation (Fresh1G1R - cfg).dat'')]\<rparr>,
      \<lparr>st_output_dat_dir = Some \<lparr>files = [''Sony - PlayStation (Fresh1G1R - cfg).dat''],
         meta = Json [(''Sony - PlayStation'',
           \<lparr>input_filename = Some ''Sony - PlayStation (2025-10-23 18-11-28) - Datfile (77).dat'',
            input_path = None, output_path = ''Sony - PlayStation (Fresh1G1R - cfg).dat''\<rparr>)],
         other_paths = []\<rparr>,
       st_report_dir = None, st_calls = []\<rparr>)"
proof -
  let ?dat = "''Sony - PlayStation (2025-10-23 18-11-28) - Datfile (77).dat''"
  let ?out = "''Sony - PlayStation (Fresh1G1R - cfg).dat''"
  let ?entry = "\<lparr>input_filename = Some ?dat, input_path = None, output_path = ?out\<rparr>"
  let ?dir = "\<lparr>files = [?out], meta = Json [(''Sony - PlayStation'', ?entry)],
               other_paths = []\<rparr>"
  let ?st = "\<lparr>st_output_dat_dir = Some ?dir, st_report_dir = None, st_calls = []\<rparr>"
  let ?res = "\<lparr>successful = [], not_required = [], no_games = [], failed = [], skipped = []\<rparr>"
  let ?e = "\<lparr>script_exists = True, retool = (\<lambda>calls cmd. Raised ''unused''),
             other_error_shapes = id\<rparr>"
  have h: "?dat \<noteq> []" by simp
  have sys: "extract_system_name (path_stem ?dat) ''redump'' = ''Sony - PlayStation''"
    by code_simp
  have c: "\<exists>dir entry. st_output_dat_dir ?st = Some dir \<and>
            map_of (load_metadata (Some dir)) (extract_system_name (path_stem ?dat) ''redump'')
              = Some entry \<and>
            stored_input_filename entry = Some ?dat \<and>
            path_exists dir (output_path entry) \<and> ?out = output_path entry"
    unfolding sys
    by (rule exI [of _ ?dir], rule exI [of _ ?entry])
       (simp add: load_metadata_def stored_input_filename_def str_or_def path_exists_def)
  note t = process_dat_skips_iff_up_to_date [OF h, where st = ?st and collection = "''redump''"
      and e = ?e and fl = "[]" and ex = "[]" and config_name = "''cfg''" and res = ?res]
  have "process_dat ?e [] [] ''redump'' ''cfg'' ?dat (?res, ?st) =
        (?res\<lparr>skipped := skipped ?res @ [(?dat, ?out)]\<rparr>, ?st)"
    by (rule mp [OF spec [OF conjunct1 [OF t]] c])
  then show ?thesis using h by simp
qed

text \<open>
  C10: \<^verbatim>\<open>process_all_dats_with_retool\<close> puts every input file in exactly one of the five
  buckets: the inputs of the buckets are, as a multiset, the input files, and the sizes of
  the buckets add up to the number of input files.
\<close>

theorem process_all_buckets:
  "mset (bucket_inputs (fst (process_all_dats_with_retool e dat_files fl ex collection config_name st)))
     = mset dat_files \<and>
   (let res = fst (process_all_dats_with_retool e dat_files fl ex collection config_name st)
    in length (successful res) + length (not_required res) + length (no_games res)
       + length (failed res) + length (skipped res) = length dat_files)"
proof -
  let ?res = "fst (process_all_dats_with_retool e dat_files fl ex collection config_name st)"
  have m: "mset (bucket_inputs ?res) = mset dat_files"
    unfolding process_all_dats_with_retool_def fold_process_dat_inputs
    by (simp add: bucket_inputs_def)
  then have "size (mset (bucket_inputs ?res)) = size (mset dat_files)" by simp
  then have "length (bucket_inputs ?res) = length dat_files" by simp
  then show ?thesis using m by (simp add: bucket_inputs_def Let_def)
qed

section \<open>The invariant of the output directory\<close>

text \<open>
  A file that \<^verbatim>\<open>glob("*.dat")\<close> yields has the suffix \<^verbatim>\<open>.dat\<close>, unless that is its whole
  name. The normalizer and \<^verbatim>\<open>Path.stem\<close> only drop characters.
\<close>

lemma path_suffix_dat:
  assumes "suffix ''.dat'' name" "name \<noteq> ''.dat''"
  shows "path_suffix name = ''.dat''"
proof -
  from assms obtain a where a: "name = a @ ''.dat''" "a \<noteq> []"
    by (auto simp: suffix_def)
  have "rfind_dot name = Some (length a)"
    by (simp add: rfind_dot_def a(1))
  then show ?thesis using a by (simp add: path_suffix_def)
qed

lemma max_mtime_in: "max_mtime f fs \<in> set (f # fs)"
  by (induction fs arbitrary: f) auto

lemma path_name_plain:
  assumes "CHR ''/'' \<notin> set p" "p \<noteq> []" "p \<noteq> ''.''"
  shows "path_name p = p"
  using assms split_on_none [of "CHR ''/''" p] by (simp add: path_name_def)

lemma canonical_meta_iff:
  "canonical_meta cfg md \<longleftrightarrow>
     distinct (map fst md) \<and>
     (\<forall>k e. map_of md k = Some e \<longrightarrow>
        output_path e = output_name k cfg ''.dat'' \<and> CHR ''/'' \<notin> set (output_path e))"
proof (cases "distinct (map fst md)")
  case False then show ?thesis by (simp add: canonical_meta_def)
next
  case True
  have m: "\<And>k e. map_of md k = Some e \<longleftrightarrow> (k, e) \<in> set md"
    using True by simp
  show ?thesis unfolding canonical_meta_def list_all_iff m
    using True by fastforce
qed

lemma recorded_iff:
  assumes "distinct (map fst md)"
  shows "recorded md f \<longleftrightarrow> (\<exists>k e. map_of md k = Some e \<and> output_path e = f)"
proof -
  have m: "\<And>k e. map_of md k = Some e \<longleftrightarrow> (k, e) \<in> set md"
    using assms by simp
  show ?thesis unfolding recorded_def m by force
qed

lemma one_per_system_Some:
  "one_per_system cfg (Some dir) \<longleftrightarrow>
     distinct (files dir) \<and> canonical_meta cfg (load_metadata (Some dir)) \<and>
     (\<forall>f\<in>set (files dir). suffix ''.dat'' f \<longrightarrow> recorded (load_metadata (Some dir)) f)"
  by (auto simp: one_per_system_def canonical_dir_def processed_dats_def list_all_iff glob_def)

lemma output_name_inj: "output_name a cfg x = output_name b cfg x \<Longrightarrow> a = b"
  by (simp add: output_name_def split: if_splits)

lemma set_tl: "set (tl xs) \<subseteq> set xs"
  by (cases xs) auto

lemma set_match_fresh_suffix: "match_fresh_suffix t = Some r \<Longrightarrow> set r \<subseteq> set t"
proof -
  assume a: "match_fresh_suffix t = Some r"
  then have "r = tl (dropWhile (\<lambda>c. c \<noteq> CHR '')'') (drop 14 t))"
    by (simp add: match_fresh_suffix_def Let_def split: if_splits)
  moreover have "set (tl (dropWhile (\<lambda>c. c \<noteq> CHR '')'') (drop 14 t))) \<subseteq> set t"
    using set_tl set_dropWhileD in_set_dropD by (metis subset_code(1))
  ultimately show ?thesis by simp
qed

lemma set_match_retool: "match_retool t = Some r \<Longrightarrow> set r \<subseteq> set t"
proof -
  assume a: "match_retool t = Some r"
  then have "r = dropWhile (\<lambda>c. c \<noteq> CHR 0x0A) (drop 8 t)"
    by (simp add: match_retool_def Let_def split: if_splits)
  moreover have "set (dropWhile (\<lambda>c. c \<noteq> CHR 0x0A) (drop 8 t)) \<subseteq> set t"
    using set_dropWhileD in_set_dropD by (metis subset_code(1))
  ultimately show ?thesis by simp
qed

lemma set_sub_fresh_suffix: "set (sub_fresh_suffix s) \<subseteq> set s"
proof (cases "re_search (\<lambda>t. match_fresh_suffix t \<noteq> None) s")
  case None then show ?thesis by (simp add: sub_fresh_suffix_def)
next
  case (Some i)
  from re_search_Some_least [OF Some] obtain r where r: "match_fresh_suffix (drop i s) = Some r"
    by auto
  from set_match_fresh_suffix [OF r] have "set r \<subseteq> set s"
    by (meson in_set_dropD subset_code(1))
  moreover have "set (take i s) \<subseteq> set s" by (meson in_set_takeD subsetI)
  ultimately show ?thesis using Some r by (simp add: sub_fresh_suffix_def)
qed

lemma set_sub_retool: "set (sub_retool s) \<subseteq> set s"
proof (cases "re_search (\<lambda>t. match_retool t \<noteq> None) s")
  case None then show ?thesis by (simp add: sub_retool_def)
next
  case (Some i)
  from re_search_Some_least [OF Some] obtain r where r: "match_retool (drop i s) = Some r"
    by auto
  from set_match_retool [OF r] have "set r \<subseteq> set s"
    by (meson in_set_dropD subset_code(1))
  moreover have "set (take i s) \<subseteq> set s" by (meson in_set_takeD subsetI)
  ultimately show ?thesis using Some r by (simp add: sub_retool_def)
qed

lemma set_sub_datfile: "set (sub_datfile s) \<subseteq> set s"
proof (induction s rule: sub_datfile.induct)
  case 1 show ?case by simp
next
  case (2 c cs)
  show ?case
  proof (cases "match_datfile (c # cs)")
    case None with 2 show ?thesis by auto
  next
    case (Some n)
    with 2 have "set (sub_datfile (drop (n - 1) cs)) \<subseteq> set (drop (n - 1) cs)" by simp
    moreover have "set (drop (n - 1) cs) \<subseteq> set cs" by (meson in_set_dropD subsetI)
    ultimately show ?thesis using Some by auto
  qed
qed

lemma set_strip: "set (strip s) \<subseteq> set s"
proof -
  obtain a b where "strip s = drop a (take b s)" using strip_drop_take by blast
  then show ?thesis by (auto dest: in_set_dropD in_set_takeD)
qed

lemma set_extract_system_name: "set (extract_system_name s c) \<subseteq> set s"
proof -
  let ?s1 = "sub_fresh_suffix s"
  have s1: "set ?s1 \<subseteq> set s" by (rule set_sub_fresh_suffix)
  have tk: "\<And>i t. set (strip (take i t)) \<subseteq> set t"
    using set_strip in_set_takeD by (metis subset_code(1))
  show ?thesis
  proof (cases "c = ''no-intro''")
    case True
    show ?thesis
    proof (cases "re_search (match_seq date_no_intro) ?s1")
      case None with True s1 show ?thesis by (simp add: extract_system_name_def)
    next
      case (Some i)
      with True s1 tk [of i ?s1] show ?thesis by (simp add: extract_system_name_def)
    qed
  next
    case False
    let ?n = "sub_datfile ?s1"
    have n: "set ?n \<subseteq> set s" using set_sub_datfile [of ?s1] s1 by simp
    show ?thesis
    proof (cases "re_search (match_seq date_redump) ?n")
      case None
      have "set (strip (sub_retool ?n)) \<subseteq> set s"
        using set_strip [of "sub_retool ?n"] set_sub_retool [of ?n] n by simp
      with None False show ?thesis by (simp add: extract_system_name_def)
    next
      case (Some i)
      with False n tk [of i ?n] show ?thesis by (simp add: extract_system_name_def)
    qed
  qed
qed

lemma set_path_stem: "set (path_stem s) \<subseteq> set s"
  by (auto simp: path_stem_def split: option.splits dest: in_set_takeD)

lemma output_name_no_slash:
  "CHR ''/'' \<notin> set n \<Longrightarrow> CHR ''/'' \<notin> set cfg \<Longrightarrow> CHR ''/'' \<notin> set (output_name n cfg ''.dat'')"
  by (simp add: output_name_def)

lemma system_name_no_slash:
  "CHR ''/'' \<notin> set input_dat \<Longrightarrow>
   CHR ''/'' \<notin> set (extract_system_name (path_stem input_dat) coll)"
  using set_extract_system_name [of "path_stem input_dat" coll] set_path_stem [of input_dat]
  by blast

lemma load_metadata_files [simp]:
  "load_metadata (Some (dir\<lparr>files := fs\<rparr>)) = load_metadata (Some dir)"
  by (simp add: load_metadata_def)

lemma load_metadata_Json [simp]: "load_metadata (Some (dir\<lparr>meta := Json md\<rparr>)) = md"
  by (simp add: load_metadata_def)

text \<open>
  Moving the output of a run: the file of the constant name replaces the one of that name,
  and the entry of the system replaces the one of that key.
\<close>

lemma move_output_dat_Cons:
  fixes input_dat coll cfg :: string
  assumes "\<forall>f\<in>set (f0 # fs). suffix ''.dat'' (fst f) \<and> fst f \<noteq> ''.dat''"
  defines "n \<equiv> extract_system_name (path_stem input_dat) coll"
  defines "new \<equiv> output_name n cfg ''.dat''"
  shows "move_output_dat input_dat coll cfg (f0 # fs) dir =
     (Some new,
      dir\<lparr>files := unlink new (files dir) @ [new],
          meta := Json (AList.update n
            \<lparr>input_filename = Some input_dat, input_path = None, output_path = new\<rparr>
            (load_metadata (Some dir)))\<rparr>)"
proof -
  have "max_mtime f0 fs \<in> set (f0 # fs)" by (rule max_mtime_in)
  with assms(1) have "suffix ''.dat'' (fst (max_mtime f0 fs)) \<and> fst (max_mtime f0 fs) \<noteq> ''.dat''"
    by blast
  then have sfx: "path_suffix (fst (max_mtime f0 fs)) = ''.dat''"
    by (simp add: path_suffix_dat)
  have u: "new \<notin> set (files dir) \<Longrightarrow> unlink new (files dir) = files dir"
    by (auto simp: unlink_def filter_id_conv)
  show ?thesis
    unfolding move_output_dat_def Let_def list.case sfx n_def [symmetric] new_def [symmetric]
    using u by (simp add: save_metadata_def mkdir_def)
qed

lemma canonical_update:
  assumes "canonical_meta cfg md" "new = output_name n cfg ''.dat''" "CHR ''/'' \<notin> set new"
    "output_path e = new"
  shows "canonical_meta cfg (AList.update n e md)"
  unfolding canonical_meta_iff
proof (intro conjI allI impI)
  from assms(1) show "distinct (map fst (AList.update n e md))"
    by (simp add: canonical_meta_iff distinct_update)
next
  fix k e' assume a: "map_of (AList.update n e md) k = Some e'"
  show "output_path e' = output_name k cfg ''.dat''"
  proof (cases "k = n")
    case True with a assms show ?thesis by (simp add: update_conv')
  next
    case False
    with a have "map_of md k = Some e'" by (simp add: update_conv')
    with assms(1) show ?thesis unfolding canonical_meta_iff by blast
  qed
  show "CHR ''/'' \<notin> set (output_path e')"
  proof (cases "k = n")
    case True with a assms show ?thesis by (simp add: update_conv')
  next
    case False
    with a have "map_of md k = Some e'" by (simp add: update_conv')
    with assms(1) show ?thesis unfolding canonical_meta_iff by blast
  qed
qed

lemma recorded_update:
  assumes c: "canonical_meta cfg md" and new: "new = output_name n cfg ''.dat''"
    and e: "output_path e = new"
  shows "recorded (AList.update n e md) new"
    and "recorded md f \<Longrightarrow> f \<noteq> new \<Longrightarrow> recorded (AList.update n e md) f"
proof -
  from c have d: "distinct (map fst md)" by (simp add: canonical_meta_iff)
  then have d': "distinct (map fst (AList.update n e md))" by (simp add: distinct_update)
  have "map_of (AList.update n e md) n = Some e" by (simp add: update_conv')
  with e show "recorded (AList.update n e md) new"
    unfolding recorded_iff [OF d'] by blast
  assume "recorded md f" "f \<noteq> new"
  then obtain k e' where k: "map_of md k = Some e'" "output_path e' = f"
    unfolding recorded_iff [OF d] by blast
  with c have "f = output_name k cfg ''.dat''" by (auto simp: canonical_meta_iff)
  with \<open>f \<noteq> new\<close> new have "k \<noteq> n" by auto
  with k have "map_of (AList.update n e md) k = Some e'" by (simp add: update_conv')
  with k show "recorded (AList.update n e md) f"
    unfolding recorded_iff [OF d'] by blast
qed

lemma canonical_dir_Some:
  "canonical_dir cfg (Some dir) \<longleftrightarrow>
     distinct (files dir) \<and> canonical_meta cfg (load_metadata (Some dir))"
  by (simp add: canonical_dir_def)

lemma distinct_unlink_append: "distinct xs \<Longrightarrow> distinct (unlink x xs @ [x])"
  by (simp add: unlink_def)

lemma move_output_dat_inv:
  assumes f: "\<forall>f\<in>set (f0 # fs). suffix ''.dat'' (fst f) \<and> fst f \<noteq> ''.dat''"
    and sl: "CHR ''/'' \<notin> set input_dat" "CHR ''/'' \<notin> set cfg"
  shows "canonical_dir cfg (Some dir) \<Longrightarrow>
           canonical_dir cfg (Some (snd (move_output_dat input_dat coll cfg (f0 # fs) dir)))"
    and "one_per_system cfg (Some dir) \<Longrightarrow>
           one_per_system cfg (Some (snd (move_output_dat input_dat coll cfg (f0 # fs) dir)))"
proof -
  let ?n = "extract_system_name (path_stem input_dat) coll"
  let ?new = "output_name ?n cfg ''.dat''"
  let ?e = "\<lparr>input_filename = Some input_dat, input_path = None, output_path = ?new\<rparr>"
  let ?md = "load_metadata (Some dir)"
  have ns: "CHR ''/'' \<notin> set ?new"
    using sl system_name_no_slash output_name_no_slash by blast
  have cu: "canonical_meta cfg ?md \<Longrightarrow> canonical_meta cfg (AList.update ?n ?e ?md)"
    by (rule canonical_update [OF _ refl ns]) simp_all
  {
    assume "canonical_dir cfg (Some dir)"
    then show "canonical_dir cfg (Some (snd (move_output_dat input_dat coll cfg (f0 # fs) dir)))"
      unfolding move_output_dat_Cons [OF f] canonical_dir_Some
      using cu by (simp add: unlink_def)
  }
  {
    assume a: "one_per_system cfg (Some dir)"
    then have c: "canonical_meta cfg ?md" by (simp add: one_per_system_Some)
    have r: "\<And>f. f \<in> set (files dir) \<Longrightarrow> suffix ''.dat'' f \<Longrightarrow> recorded ?md f"
      using a by (simp add: one_per_system_Some)
    have "\<forall>f\<in>set (unlink ?new (files dir) @ [?new]). suffix ''.dat'' f \<longrightarrow>
            recorded (AList.update ?n ?e ?md) f"
    proof (intro ballI impI)
      fix f assume f: "f \<in> set (unlink ?new (files dir) @ [?new])" "suffix ''.dat'' f"
      show "recorded (AList.update ?n ?e ?md) f"
      proof (cases "f = ?new")
        case True
        then show ?thesis using recorded_update(1) [OF c refl, of ?e ?n] by simp
      next
        case False
        with f have "f \<in> set (files dir)" by (simp add: unlink_def)
        from r [OF this f(2)] False show ?thesis
          using recorded_update(2) [OF c refl, of ?e ?n f] by simp
      qed
    qed
    then show "one_per_system cfg (Some (snd (move_output_dat input_dat coll cfg (f0 # fs) dir)))"
      unfolding move_output_dat_Cons [OF f] one_per_system_Some
      using a cu by (simp add: unlink_def one_per_system_Some)
  }
qed

text \<open>
  The output directory after \<^verbatim>\<open>run_retool\<close> and after a pass.
\<close>

lemma run_retool_dir:
  "st_output_dat_dir (snd (run_retool e input_dat fl ex coll cfg st)) =
     (if \<not> script_exists e then st_output_dat_dir st
      else case retool e (st_calls st)
                  ([input_dat] @ fl @ [''--exclude'', ex] @ [''--output'', path_stem input_dat]) of
             Raised msg \<Rightarrow> Some (mkdir (st_output_dat_dir st))
           | Completed r \<Rightarrow>
               Some (snd (move_output_dat input_dat coll cfg
                      (glob_listing ''.dat'' (temp_output_dir r)) (mkdir (st_output_dat_dir st)))))"
  by (simp add: run_retool_def Let_def split: outcome.splits prod.splits)

lemma move_output_dat_Nil: "move_output_dat input_dat coll cfg [] dir = (None, dir)"
  by (simp add: move_output_dat_def)

lemma run_retool_keeps:
  assumes q: "Q (st_output_dat_dir st)"
    and mk: "\<And>d. Q d \<Longrightarrow> Q (Some (mkdir d))"
    and mv: "\<And>dir f0 fs. Q (Some dir) \<Longrightarrow>
               \<forall>f\<in>set (f0 # fs). suffix ''.dat'' (fst f) \<and> fst f \<noteq> ''.dat'' \<Longrightarrow>
               Q (Some (snd (move_output_dat input_dat coll cfg (f0 # fs) dir)))"
    and tool: "\<forall>calls cmd r. retool e calls cmd = Completed r \<longrightarrow>
                 ''.dat'' \<notin> fst ` set (temp_output_dir r)"
  shows "Q (st_output_dat_dir (snd (run_retool e input_dat fl ex coll cfg st)))"
proof (cases "script_exists e")
  case False with q show ?thesis by (simp add: run_retool_dir)
next
  case True
  let ?cmd = "[input_dat] @ fl @ [''--exclude'', ex] @ [''--output'', path_stem input_dat]"
  show ?thesis
  proof (cases "retool e (st_calls st) ?cmd")
    case (Raised msg)
    with True mk [OF q] show ?thesis by (simp add: run_retool_dir)
  next
    case (Completed r)
    let ?g = "glob_listing ''.dat'' (temp_output_dir r)"
    from tool Completed have nd: "''.dat'' \<notin> fst ` set (temp_output_dir r)" by blast
    have g: "\<forall>f\<in>set ?g. suffix ''.dat'' (fst f) \<and> fst f \<noteq> ''.dat''"
      using nd by (force simp: glob_listing_def image_iff)
    have "Q (Some (snd (move_output_dat input_dat coll cfg ?g (mkdir (st_output_dat_dir st)))))"
    proof (cases ?g)
      case Nil
      then show ?thesis using mk [OF q] by (simp add: move_output_dat_Nil)
    next
      case (Cons f0 fs)
      with g have "\<forall>f\<in>set (f0 # fs). suffix ''.dat'' (fst f) \<and> fst f \<noteq> ''.dat''" by simp
      from mv [OF mk [OF q] this] Cons show ?thesis by simp
    qed
    with True Completed show ?thesis by (simp add: run_retool_dir)
  qed
qed

lemma canonical_dir_mkdir: "canonical_dir cfg d \<Longrightarrow> canonical_dir cfg (Some (mkdir d))"
  by (cases d) (simp_all add: canonical_dir_def mkdir_def load_metadata_def canonical_meta_def)

lemma one_per_system_mkdir: "one_per_system cfg d \<Longrightarrow> one_per_system cfg (Some (mkdir d))"
  by (cases d)
     (simp_all add: one_per_system_def canonical_dir_def processed_dats_def mkdir_def
        load_metadata_def canonical_meta_def glob_def)

lemma canonical_dir_run_retool:
  assumes "canonical_dir cfg (st_output_dat_dir st)"
    and "\<forall>calls cmd r. retool e calls cmd = Completed r \<longrightarrow>
           ''.dat'' \<notin> fst ` set (temp_output_dir r)"
    and "CHR ''/'' \<notin> set input_dat" "CHR ''/'' \<notin> set cfg"
  shows "canonical_dir cfg (st_output_dat_dir (snd (run_retool e input_dat fl ex coll cfg st)))"
  using assms(1) canonical_dir_mkdir move_output_dat_inv(1) [OF _ assms(3,4)] assms(2)
  by (rule run_retool_keeps [where Q = "canonical_dir cfg"])

lemma one_per_system_run_retool:
  assumes "one_per_system cfg (st_output_dat_dir st)"
    and "\<forall>calls cmd r. retool e calls cmd = Completed r \<longrightarrow>
           ''.dat'' \<notin> fst ` set (temp_output_dir r)"
    and "CHR ''/'' \<notin> set input_dat" "CHR ''/'' \<notin> set cfg"
  shows "one_per_system cfg (st_output_dat_dir (snd (run_retool e input_dat fl ex coll cfg st)))"
  using assms(1) one_per_system_mkdir move_output_dat_inv(2) [OF _ assms(3,4)] assms(2)
  by (rule run_retool_keeps [where Q = "one_per_system cfg"])

lemma process_dat_keeps:
  assumes q: "Q (st_output_dat_dir (snd rs))"
    and run: "\<And>st. Q (st_output_dat_dir st) \<Longrightarrow>
                Q (st_output_dat_dir (snd (run_retool e dat_file fl ex coll cfg st)))"
  shows "Q (st_output_dat_dir (snd (process_dat e fl ex coll cfg dat_file rs)))"
proof -
  obtain res st where rs: "rs = (res, st)" by (cases rs)
  show ?thesis
  proof (cases "check_if_already_processed dat_file (st_output_dat_dir st) coll")
    case None
    show ?thesis
      unfolding rs process_dat_run(2) [OF None]
      using q run unfolding rs by simp
  next
    case (Some p)
    show ?thesis
      unfolding rs process_dat_skip [OF Some] using q unfolding rs by simp
  qed
qed

lemma fold_process_dat_keeps:
  assumes q: "Q (st_output_dat_dir (snd rs))"
    and run: "\<And>st dat_file. dat_file \<in> set dat_files \<Longrightarrow> Q (st_output_dat_dir st) \<Longrightarrow>
                Q (st_output_dat_dir (snd (run_retool e dat_file fl ex coll cfg st)))"
  shows "Q (st_output_dat_dir (snd (fold (process_dat e fl ex coll cfg) dat_files rs)))"
  using assms
proof (induction dat_files arbitrary: rs)
  case Nil then show ?case by simp
next
  case (Cons d ds)
  have "Q (st_output_dat_dir (snd (process_dat e fl ex coll cfg d rs)))"
    by (rule process_dat_keeps [where Q = Q, OF Cons.prems(1)]) (rule Cons.prems(2), simp_all)
  from Cons.IH [OF this] Cons.prems(2) show ?case by simp
qed

lemma process_all_keeps:
  assumes tool: "\<forall>calls cmd r. retool e calls cmd = Completed r \<longrightarrow>
           ''.dat'' \<notin> fst ` set (temp_output_dir r)"
    and sl: "\<forall>f\<in>set dat_files. CHR ''/'' \<notin> set f" "CHR ''/'' \<notin> set cfg"
  shows "canonical_dir cfg (st_output_dat_dir st) \<Longrightarrow>
         canonical_dir cfg (st_output_dat_dir
           (snd (process_all_dats_with_retool e dat_files fl ex coll cfg st)))"
    and "one_per_system cfg (st_output_dat_dir st) \<Longrightarrow>
         one_per_system cfg (st_output_dat_dir
           (snd (process_all_dats_with_retool e dat_files fl ex coll cfg st)))"
proof -
  assume "canonical_dir cfg (st_output_dat_dir st)"
  then show "canonical_dir cfg (st_output_dat_dir
           (snd (process_all_dats_with_retool e dat_files fl ex coll cfg st)))"
    unfolding process_all_dats_with_retool_def
    by (intro fold_process_dat_keeps [where Q = "canonical_dir cfg"])
       (simp, rule canonical_dir_run_retool [OF _ tool _ sl(2)], use sl(1) in auto)
next
  assume "one_per_system cfg (st_output_dat_dir st)"
  then show "one_per_system cfg (st_output_dat_dir
           (snd (process_all_dats_with_retool e dat_files fl ex coll cfg st)))"
    unfolding process_all_dats_with_retool_def
    by (intro fold_process_dat_keeps [where Q = "one_per_system cfg"])
       (simp, rule one_per_system_run_retool [OF _ tool _ sl(2)], use sl(1) in auto)
qed

text \<open>
  The loop of \<^verbatim>\<open>cleanup_previous_dats\<close>: it removes names and entries only, and an entry
  goes only with the file that it records.
\<close>

lemma forget_output_cases:
  "forget_output f md = md \<or>
   (\<exists>s e. map_of md s = Some e \<and> output_path e = f \<and> forget_output f md = AList.delete s md)"
  by (auto simp: forget_output_def split: option.splits)

lemma forget_output_distinct:
  "distinct (map fst md) \<Longrightarrow> distinct (map fst (forget_output f md))"
  using forget_output_cases [of f md] by (auto simp: distinct_delete)

lemma forget_output_sub:
  "map_of (forget_output f md) k = Some e \<Longrightarrow> map_of md k = Some e"
  using forget_output_cases [of f md]
  by (auto simp: delete_conv' split: if_splits)

lemma forget_output_other:
  assumes "map_of md k = Some e" "output_path e \<noteq> f"
  shows "map_of (forget_output f md) k = Some e"
proof -
  from forget_output_cases [of f md] show ?thesis
  proof
    assume "forget_output f md = md" with assms show ?thesis by simp
  next
    assume "\<exists>s e. map_of md s = Some e \<and> output_path e = f \<and>
              forget_output f md = AList.delete s md"
    then obtain s e' where s: "map_of md s = Some e'" "output_path e' = f"
      "forget_output f md = AList.delete s md" by blast
    with assms have "s \<noteq> k" by auto
    with s(3) assms(1) show ?thesis by (simp add: delete_conv')
  qed
qed

lemma cleanup_fold:
  assumes "fold (\<lambda>dat_file (names, metadata).
                  if can_unlink dat_file
                  then (unlink dat_file names, forget_output dat_file metadata)
                  else (names, metadata)) xs (names, md) = (names', md')"
  shows "set names' \<subseteq> set names"
    and "distinct names \<Longrightarrow> distinct names'"
    and "distinct (map fst md) \<Longrightarrow> distinct (map fst md')"
    and "\<And>k e. map_of md' k = Some e \<Longrightarrow> map_of md k = Some e"
    and "\<And>k e. map_of md k = Some e \<Longrightarrow> output_path e \<in> set names' \<Longrightarrow> map_of md' k = Some e"
    and "\<forall>f\<in>set xs. can_unlink f \<Longrightarrow> set names' = set names - set xs"
  using assms
proof (induction xs arbitrary: names md)
  case Nil
  {
    case 1 then show ?case by simp
  next
    case 2 then show ?case by simp
  next
    case 3 then show ?case by simp
  next
    case 4 then show ?case by simp
  next
    case 5 then show ?case by simp
  next
    case 6 then show ?case by simp
  }
next
  case (Cons x xs)
  {
    case 1
    let ?n1 = "if can_unlink x then unlink x names else names"
    let ?m1 = "if can_unlink x then forget_output x md else md"
    have sub1: "set ?n1 \<subseteq> set names" by (auto simp: unlink_def)
    from 1 have f: "fold (\<lambda>dat_file (names, metadata).
                  if can_unlink dat_file
                  then (unlink dat_file names, forget_output dat_file metadata)
                  else (names, metadata)) xs (?n1, ?m1) = (names', md')"
      by (cases "can_unlink x") simp_all
    from Cons.IH(1) [OF f] sub1 show ?case by blast
  next
    case 2
    let ?n1 = "if can_unlink x then unlink x names else names"
    let ?m1 = "if can_unlink x then forget_output x md else md"
    have sub1: "set ?n1 \<subseteq> set names" by (auto simp: unlink_def)
    from 2(2) have f: "fold (\<lambda>dat_file (names, metadata).
                  if can_unlink dat_file
                  then (unlink dat_file names, forget_output dat_file metadata)
                  else (names, metadata)) xs (?n1, ?m1) = (names', md')"
      by (cases "can_unlink x") simp_all
    from 2(1) have "distinct ?n1" by (simp add: unlink_def)
    from Cons.IH(2) [OF this f] show ?case .
  next
    case 3
    let ?n1 = "if can_unlink x then unlink x names else names"
    let ?m1 = "if can_unlink x then forget_output x md else md"
    have sub1: "set ?n1 \<subseteq> set names" by (auto simp: unlink_def)
    from 3(2) have f: "fold (\<lambda>dat_file (names, metadata).
                  if can_unlink dat_file
                  then (unlink dat_file names, forget_output dat_file metadata)
                  else (names, metadata)) xs (?n1, ?m1) = (names', md')"
      by (cases "can_unlink x") simp_all
    from 3(1) have "distinct (map fst ?m1)" by (simp add: forget_output_distinct)
    from Cons.IH(3) [OF this f] show ?case .
  next
    case (4 k e)
    let ?n1 = "if can_unlink x then unlink x names else names"
    let ?m1 = "if can_unlink x then forget_output x md else md"
    have sub1: "set ?n1 \<subseteq> set names" by (auto simp: unlink_def)
    from 4(2) have f: "fold (\<lambda>dat_file (names, metadata).
                  if can_unlink dat_file
                  then (unlink dat_file names, forget_output dat_file metadata)
                  else (names, metadata)) xs (?n1, ?m1) = (names', md')"
      by (cases "can_unlink x") simp_all
    from Cons.IH(4) [OF 4(1) f] have "map_of ?m1 k = Some e" .
    then show ?case by (auto dest: forget_output_sub split: if_splits)
  next
    case (5 k e)
    let ?n1 = "if can_unlink x then unlink x names else names"
    let ?m1 = "if can_unlink x then forget_output x md else md"
    have sub1: "set ?n1 \<subseteq> set names" by (auto simp: unlink_def)
    from 5(3) have f: "fold (\<lambda>dat_file (names, metadata).
                  if can_unlink dat_file
                  then (unlink dat_file names, forget_output dat_file metadata)
                  else (names, metadata)) xs (?n1, ?m1) = (names', md')"
      by (cases "can_unlink x") simp_all
    from Cons.IH(1) [OF f] 5(2) have "output_path e \<in> set ?n1" by blast
    then have "can_unlink x \<Longrightarrow> output_path e \<noteq> x" by (auto simp: unlink_def)
    with 5(1) have "map_of ?m1 k = Some e" by (simp add: forget_output_other)
    from Cons.IH(5) [OF this 5(2) f] show ?case .
  next
    case 6
    let ?n1 = "if can_unlink x then unlink x names else names"
    let ?m1 = "if can_unlink x then forget_output x md else md"
    have sub1: "set ?n1 \<subseteq> set names" by (auto simp: unlink_def)
    from 6(2) have f: "fold (\<lambda>dat_file (names, metadata).
                  if can_unlink dat_file
                  then (unlink dat_file names, forget_output dat_file metadata)
                  else (names, metadata)) xs (?n1, ?m1) = (names', md')"
      by (cases "can_unlink x") simp_all
    from 6(1) have "\<forall>f\<in>set xs. can_unlink f" "can_unlink x" by simp_all
    from Cons.IH(6) [OF this(1) f] this(2) show ?case by (auto simp: unlink_def)
  }
qed

lemma cleanup_shape:
  "\<exists>dir' md'.
     cleanup_previous_dats can_unlink (Some dir) P = Some dir' \<and>
     (load_metadata (Some dir') = md' \<or>
      (md' = [] \<and> load_metadata (Some dir') = load_metadata (Some dir))) \<and>
     fold (\<lambda>dat_file (names, metadata).
             if can_unlink dat_file
             then (unlink dat_file names, forget_output dat_file metadata)
             else (names, metadata))
       (filter (\<lambda>f. f \<notin> P) (glob ''.dat'' (files dir)))
       (files dir, load_metadata (Some dir)) = (files dir', md')"
proof (cases "filter (\<lambda>f. f \<notin> P) (glob ''.dat'' (files dir)) = []")
  case True
  then show ?thesis by (simp add: cleanup_previous_dats_def)
next
  case False
  obtain names' md' where f: "fold (\<lambda>dat_file (names, metadata).
             if can_unlink dat_file
             then (unlink dat_file names, forget_output dat_file metadata)
             else (names, metadata))
       (filter (\<lambda>f. f \<notin> P) (glob ''.dat'' (files dir)))
       (files dir, load_metadata (Some dir)) = (names', md')"
    by (meson surj_pair)
  show ?thesis
  proof (cases "md' \<noteq> []")
    case True
    with False f show ?thesis
      by (simp add: cleanup_previous_dats_def Let_def save_metadata_def mkdir_def)
  next
    case e: False
    show ?thesis
    proof (cases "meta dir \<noteq> NoFile \<and> can_unlink ''.metadata.json''")
      case True
      with False f e show ?thesis
        by (simp add: cleanup_previous_dats_def Let_def load_metadata_def)
    next
      case n: False
      with False f e show ?thesis
        by (auto simp add: cleanup_previous_dats_def Let_def)
    qed
  qed
qed

lemma canonical_meta_sub:
  assumes "canonical_meta cfg md" "distinct (map fst md')"
    and "\<And>k e. map_of md' k = Some e \<Longrightarrow> map_of md k = Some e"
  shows "canonical_meta cfg md'"
  using assms unfolding canonical_meta_iff by blast

lemma recorded_sub:
  assumes d: "distinct (map fst md)" "distinct (map fst md')"
    and r: "recorded md f"
    and keep: "\<And>k e. map_of md k = Some e \<Longrightarrow> output_path e = f \<Longrightarrow> map_of md' k = Some e"
  shows "recorded md' f"
proof -
  from r obtain k e where "map_of md k = Some e" "output_path e = f"
    unfolding recorded_iff [OF d(1)] by blast
  with keep have "map_of md' k = Some e \<and> output_path e = f" by blast
  then show ?thesis unfolding recorded_iff [OF d(2)] by blast
qed

lemma cleanup_canonical_dir:
  assumes "canonical_dir cfg d"
  shows "canonical_dir cfg (cleanup_previous_dats can_unlink d P)"
proof (cases d)
  case None then show ?thesis by (simp add: cleanup_previous_dats_def canonical_dir_def)
next
  case (Some dir)
  let ?md = "load_metadata (Some dir)"
  from assms Some have c: "distinct (files dir)" "canonical_meta cfg ?md"
    by (simp_all add: canonical_dir_Some)
  then have dm: "distinct (map fst ?md)" by (simp add: canonical_meta_iff)
  from cleanup_shape [of can_unlink dir P] obtain dir' md' where
    s: "cleanup_previous_dats can_unlink (Some dir) P = Some dir'"
       "load_metadata (Some dir') = md' \<or> (md' = [] \<and> load_metadata (Some dir') = ?md)"
    and f: "fold (\<lambda>dat_file (names, metadata).
             if can_unlink dat_file
             then (unlink dat_file names, forget_output dat_file metadata)
             else (names, metadata))
       (filter (\<lambda>f. f \<notin> P) (glob ''.dat'' (files dir))) (files dir, ?md) = (files dir', md')"
    by blast
  have "canonical_meta cfg md'"
    using c(2) cleanup_fold(3) [OF f dm] cleanup_fold(4) [OF f] by (rule canonical_meta_sub)
  with s(2) c(2) have "canonical_meta cfg (load_metadata (Some dir'))" by auto
  with cleanup_fold(2) [OF f c(1)] show ?thesis
    unfolding Some s(1) canonical_dir_Some by simp
qed

lemma cleanup_recorded:
  assumes c: "canonical_dir cfg (Some dir)"
    and s: "cleanup_previous_dats can_unlink (Some dir) P = Some dir'"
    and r: "\<And>f. f \<in> set (files dir') \<Longrightarrow> suffix ''.dat'' f \<Longrightarrow>
              recorded (load_metadata (Some dir)) f"
  shows "one_per_system cfg (Some dir')"
proof -
  let ?md = "load_metadata (Some dir)"
  from c have c: "distinct (files dir)" "canonical_meta cfg ?md"
    by (simp_all add: canonical_dir_Some)
  then have dm: "distinct (map fst ?md)" by (simp add: canonical_meta_iff)
  from cleanup_shape [of can_unlink dir P] s obtain md' where
    l: "load_metadata (Some dir') = md' \<or> (md' = [] \<and> load_metadata (Some dir') = ?md)"
    and f: "fold (\<lambda>dat_file (names, metadata).
             if can_unlink dat_file
             then (unlink dat_file names, forget_output dat_file metadata)
             else (names, metadata))
       (filter (\<lambda>f. f \<notin> P) (glob ''.dat'' (files dir))) (files dir, ?md) = (files dir', md')"
    by auto
  have dm': "distinct (map fst md')" by (rule cleanup_fold(3) [OF f dm])
  have cm': "canonical_meta cfg md'"
    using c(2) dm' cleanup_fold(4) [OF f] by (rule canonical_meta_sub)
  from l c(2) cm' have cl: "canonical_meta cfg (load_metadata (Some dir'))" by auto
  have "recorded (load_metadata (Some dir')) g" if g: "g \<in> set (files dir')" "suffix ''.dat'' g" for g
  proof -
    have r0: "recorded ?md g" using r g by blast
    have "recorded md' g"
      using dm dm' r0
    proof (rule recorded_sub)
      fix k e assume "map_of ?md k = Some e" "output_path e = g"
      with g(1) show "map_of md' k = Some e" using cleanup_fold(5) [OF f] by blast
    qed
    with l r0 show ?thesis by auto
  qed
  with cl cleanup_fold(2) [OF f c(1)] show ?thesis
    unfolding one_per_system_Some by blast
qed

lemma cleanup_one_per_system:
  assumes "one_per_system cfg d"
  shows "one_per_system cfg (cleanup_previous_dats can_unlink d P)"
proof (cases d)
  case None then show ?thesis
    by (simp add: cleanup_previous_dats_def one_per_system_def canonical_dir_def
          processed_dats_def)
next
  case (Some dir)
  let ?md = "load_metadata (Some dir)"
  from assms Some have o: "one_per_system cfg (Some dir)" by simp
  then have c: "canonical_dir cfg (Some dir)"
    by (simp add: one_per_system_Some canonical_dir_Some)
  from cleanup_shape [of can_unlink dir P] obtain dir' md' where
    s: "cleanup_previous_dats can_unlink (Some dir) P = Some dir'"
    and f: "fold (\<lambda>dat_file (names, metadata).
             if can_unlink dat_file
             then (unlink dat_file names, forget_output dat_file metadata)
             else (names, metadata))
       (filter (\<lambda>f. f \<notin> P) (glob ''.dat'' (files dir))) (files dir, ?md) = (files dir', md')"
    by blast
  have "one_per_system cfg (Some dir')"
    using c s
  proof (rule cleanup_recorded)
    fix g assume "g \<in> set (files dir')" "suffix ''.dat'' g"
    with cleanup_fold(1) [OF f] o show "recorded ?md g"
      unfolding one_per_system_Some by blast
  qed
  with s Some show ?thesis by simp
qed

lemma cleanup_establishes:
  assumes c: "canonical_dir cfg (Some dir)"
    and del: "\<forall>f\<in>set (glob ''.dat'' (files dir)). f \<notin> P \<longrightarrow> can_unlink f"
    and p: "\<And>f. f \<in> P \<Longrightarrow> recorded (load_metadata (Some dir)) f"
  shows "one_per_system cfg (cleanup_previous_dats can_unlink (Some dir) P)"
proof -
  let ?md = "load_metadata (Some dir)"
  let ?xs = "filter (\<lambda>f. f \<notin> P) (glob ''.dat'' (files dir))"
  from cleanup_shape [of can_unlink dir P] obtain dir' md' where
    s: "cleanup_previous_dats can_unlink (Some dir) P = Some dir'"
    and f: "fold (\<lambda>dat_file (names, metadata).
             if can_unlink dat_file
             then (unlink dat_file names, forget_output dat_file metadata)
             else (names, metadata)) ?xs (files dir, ?md) = (files dir', md')"
    by blast
  from del have "\<forall>f\<in>set ?xs. can_unlink f" by simp
  from cleanup_fold(6) [OF f this] have fs: "set (files dir') = set (files dir) - set ?xs" .
  have "one_per_system cfg (Some dir')"
    using c s
  proof (rule cleanup_recorded)
    fix g assume "g \<in> set (files dir')" "suffix ''.dat'' g"
    with fs have "g \<in> P" by (auto simp: glob_def)
    then show "recorded ?md g" by (rule p)
  qed
  with s show ?thesis by simp
qed

lemma check_if_already_processed_entry:
  "check_if_already_processed input_dat (Some dir) coll = Some p \<Longrightarrow>
   \<exists>s e. map_of (load_metadata (Some dir)) s = Some e \<and> p = output_path e"
  by (auto simp: check_if_already_processed_def Let_def split: option.splits if_splits)

lemma output_name_dat_neq: "output_name s cfg ''.dat'' \<noteq> []" "output_name s cfg ''.dat'' \<noteq> ''.''"
  by (auto simp: output_name_def)

lemma existing_recorded:
  assumes c: "canonical_meta cfg (load_metadata (Some dir))"
    and f: "f \<in> existing_processed_files dat_files (Some dir) coll"
  shows "recorded (load_metadata (Some dir)) f"
proof -
  from f obtain dat p where p: "check_if_already_processed dat (Some dir) coll = Some p"
    "f = path_name p"
    by (auto simp: existing_processed_files_def map_filter_def)
  from check_if_already_processed_entry [OF p(1)] obtain s e where
    e: "map_of (load_metadata (Some dir)) s = Some e" "p = output_path e" by blast
  from c e(1) have "output_path e = output_name s cfg ''.dat'' \<and> CHR ''/'' \<notin> set (output_path e)"
    unfolding canonical_meta_iff by blast
  with e(2) have o: "p = output_name s cfg ''.dat''" "CHR ''/'' \<notin> set p" by metis+
  then have "path_name p = p"
    using output_name_dat_neq [of s cfg] by (simp add: path_name_plain)
  with p(2) e have r: "map_of (load_metadata (Some dir)) s = Some e \<and> output_path e = f" by simp
  from c have d: "distinct (map fst (load_metadata (Some dir)))"
    unfolding canonical_meta_iff by blast
  from r show ?thesis unfolding recorded_iff [OF d] by blast
qed

lemma cleanup_establishes_main:
  assumes c: "canonical_dir cfg (Some dir)"
    and del: "\<forall>f\<in>set (glob ''.dat'' (files dir)). can_unlink f"
  shows "one_per_system cfg (cleanup_previous_dats can_unlink (Some dir)
           (existing_processed_files dat_files (Some dir) coll))"
  using c
proof (rule cleanup_establishes)
  from del show "\<forall>f\<in>set (glob ''.dat'' (files dir)).
      f \<notin> existing_processed_files dat_files (Some dir) coll \<longrightarrow> can_unlink f" by blast
next
  fix f assume f: "f \<in> existing_processed_files dat_files (Some dir) coll"
  from c have "canonical_meta cfg (load_metadata (Some dir))" by (simp add: canonical_dir_Some)
  then show "recorded (load_metadata (Some dir)) f" using f by (rule existing_recorded)
qed

text \<open>
  What the invariant gives for each system name.
\<close>

lemma length_filter_eq_distinct: "distinct xs \<Longrightarrow> length (filter (\<lambda>y. y = x) xs) \<le> 1"
proof (induction xs)
  case Nil show ?case by simp
next
  case (Cons a xs)
  then show ?case by (cases "a = x") (auto simp: filter_empty_conv)
qed

lemma length_filter_fst_distinct:
  "distinct (map fst xs) \<Longrightarrow> length (filter (\<lambda>kv. fst kv = k) xs) \<le> 1"
proof (induction xs)
  case Nil show ?case by simp
next
  case (Cons a xs)
  then show ?case by (cases "fst a = k") (force simp: filter_empty_conv image_iff)+
qed

lemma one_per_system_None: "one_per_system cfg None"
  by (simp add: one_per_system_def canonical_dir_def processed_dats_def)

lemma one_per_system_meaning:
  assumes "one_per_system cfg d"
  shows "length (entries_of n d) \<le> 1"
    and "length (dats_of cfg n d) \<le> 1"
    and "set (processed_dats d) \<subseteq> (\<lambda>k. output_name k cfg ''.dat'') ` fst ` set (load_metadata d)"
proof -
  show "length (entries_of n d) \<le> 1"
  proof (cases d)
    case None then show ?thesis by (simp add: entries_of_def load_metadata_def)
  next
    case (Some dir)
    with assms have "distinct (map fst (load_metadata d))"
      by (simp add: one_per_system_Some canonical_meta_iff)
    then show ?thesis unfolding entries_of_def by (rule length_filter_fst_distinct)
  qed
  show "length (dats_of cfg n d) \<le> 1"
  proof (cases d)
    case None then show ?thesis by (simp add: dats_of_def processed_dats_def)
  next
    case (Some dir)
    with assms have "distinct (glob ''.dat'' (files dir))"
      by (simp add: one_per_system_Some glob_def)
    then show ?thesis unfolding dats_of_def processed_dats_def Some option.case
      by (rule length_filter_eq_distinct)
  qed
  show "set (processed_dats d) \<subseteq> (\<lambda>k. output_name k cfg ''.dat'') ` fst ` set (load_metadata d)"
  proof (cases d)
    case None then show ?thesis by (simp add: processed_dats_def)
  next
    case (Some dir)
    let ?md = "load_metadata (Some dir)"
    from assms Some have c: "canonical_meta cfg ?md"
      and r: "\<And>f. f \<in> set (files dir) \<Longrightarrow> suffix ''.dat'' f \<Longrightarrow> recorded ?md f"
      by (simp_all add: one_per_system_Some)
    from c have dm: "distinct (map fst ?md)" unfolding canonical_meta_iff by blast
    have "f \<in> (\<lambda>k. output_name k cfg ''.dat'') ` fst ` set ?md"
      if f: "f \<in> set (glob ''.dat'' (files dir))" for f
    proof -
      from f have "recorded ?md f" using r by (simp add: glob_def)
      then obtain k e where k: "map_of ?md k = Some e" "output_path e = f"
        unfolding recorded_iff [OF dm] by blast
      with c have "f = output_name k cfg ''.dat''" unfolding canonical_meta_iff by blast
      moreover from k(1) have "k \<in> fst ` set ?md" 
        using map_of_SomeD [of ?md k e] by (force simp: image_iff)
      ultimately show ?thesis by blast
    qed
    then show ?thesis unfolding Some processed_dats_def by auto
  qed
qed

text \<open>
  C3: an output directory holds one processed \<^verbatim>\<open>.dat\<close> per system (\<open>one_per_system\<close>) when
  its listing repeats no name, its metadata has one entry per system name, each recording
  the constant name of the system for the configuration, and every \<^verbatim>\<open>.dat\<close> it lists is
  the output that an entry records. Then every system name has at most one entry and at
  most one processed \<^verbatim>\<open>.dat\<close>, and every \<^verbatim>\<open>.dat\<close> listed is the file of a system that has
  an entry. For a tool that leaves no file named just \<^verbatim>\<open>.dat\<close>, and file names and a
  configuration name without a slash:

  \<^item> a missing directory and the empty directory that \<^verbatim>\<open>mkdir\<close> makes of it have one
    processed \<^verbatim>\<open>.dat\<close> per system;
  \<^item> \<^verbatim>\<open>run_retool\<close>, \<^verbatim>\<open>cleanup_previous_dats\<close> (whatever it is told to preserve and whichever
    deletions fail) and a whole pass of \<^verbatim>\<open>process_all_dats_with_retool\<close> over any input
    files preserve \<open>one_per_system\<close>, for the configuration that the run is given;
  \<^item> they preserve \<open>canonical_dir\<close> too, the part of it that leaves the \<^verbatim>\<open>.dat\<close> files
    without an entry aside;
  \<^item> the cleanup before reprocessing enforces it: from a canonical directory that may hold
    any further \<^verbatim>\<open>.dat\<close> files, \<^verbatim>\<open>cleanup_previous_dats\<close> with the names that \<^verbatim>\<open>main\<close>
    preserves and deletions that succeed gives a directory with one processed \<^verbatim>\<open>.dat\<close> per
    system, which the pass that follows keeps.
\<close>

theorem one_per_system_invariant:
  assumes tool: "\<forall>calls cmd r. retool e calls cmd = Completed r \<longrightarrow>
                   ''.dat'' \<notin> fst ` set (temp_output_dir r)"
    and names: "CHR ''/'' \<notin> set input_dat" "\<forall>f\<in>set dat_files. CHR ''/'' \<notin> set f"
      "CHR ''/'' \<notin> set config_name"
  shows
    "one_per_system config_name None \<and>
     one_per_system config_name (Some (mkdir None)) \<and>
     (one_per_system config_name (st_output_dat_dir st) \<longrightarrow>
        one_per_system config_name
          (st_output_dat_dir (snd (run_retool e input_dat fl ex collection config_name st)))) \<and>
     (one_per_system config_name d \<longrightarrow>
        one_per_system config_name (cleanup_previous_dats can_unlink d preserve_files)) \<and>
     (one_per_system config_name (st_output_dat_dir st) \<longrightarrow>
        one_per_system config_name
          (st_output_dat_dir
            (snd (process_all_dats_with_retool e dat_files fl ex collection config_name st)))) \<and>
     (canonical_dir config_name (st_output_dat_dir st) \<longrightarrow>
        canonical_dir config_name
          (st_output_dat_dir (snd (run_retool e input_dat fl ex collection config_name st)))) \<and>
     (canonical_dir config_name d \<longrightarrow>
        canonical_dir config_name (cleanup_previous_dats can_unlink d preserve_files)) \<and>
     (canonical_dir config_name (st_output_dat_dir st) \<longrightarrow>
        canonical_dir config_name
          (st_output_dat_dir
            (snd (process_all_dats_with_retool e dat_files fl ex collection config_name st)))) \<and>
     (canonical_dir config_name (Some dir) \<and> list_all can_unlink (glob ''.dat'' (files dir)) \<longrightarrow>
        one_per_system config_name
          (cleanup_previous_dats can_unlink (Some dir)
             (existing_processed_files dat_files (Some dir) collection)) \<and>
        one_per_system config_name
          (st_output_dat_dir
            (snd (process_all_dats_with_retool e dat_files fl ex collection config_name
              (st\<lparr>st_output_dat_dir :=
                    cleanup_previous_dats can_unlink (Some dir)
                      (existing_processed_files dat_files (Some dir) collection)\<rparr>))))) \<and>
     (one_per_system config_name d \<longrightarrow>
        length (entries_of system_name d) \<le> 1 \<and>
        length (dats_of config_name system_name d) \<le> 1 \<and>
        set (processed_dats d) \<subseteq>
          (\<lambda>k. output_name k config_name ''.dat'') ` fst ` set (load_metadata d))"
proof (intro conjI impI)
  show n: "one_per_system config_name None" by (rule one_per_system_None)
  from n show "one_per_system config_name (Some (mkdir None))" by (rule one_per_system_mkdir)
next
  assume "one_per_system config_name (st_output_dat_dir st)"
  then show "one_per_system config_name
          (st_output_dat_dir (snd (run_retool e input_dat fl ex collection config_name st)))"
    using tool names(1,3) by (rule one_per_system_run_retool)
next
  assume "one_per_system config_name d"
  then show "one_per_system config_name (cleanup_previous_dats can_unlink d preserve_files)"
    by (rule cleanup_one_per_system)
next
  assume "one_per_system config_name (st_output_dat_dir st)"
  then show "one_per_system config_name
          (st_output_dat_dir
            (snd (process_all_dats_with_retool e dat_files fl ex collection config_name st)))"
    by (rule process_all_keeps(2) [OF tool names(2,3)])
next
  assume "canonical_dir config_name (st_output_dat_dir st)"
  then show "canonical_dir config_name
          (st_output_dat_dir (snd (run_retool e input_dat fl ex collection config_name st)))"
    using tool names(1,3) by (rule canonical_dir_run_retool)
next
  assume "canonical_dir config_name d"
  then show "canonical_dir config_name (cleanup_previous_dats can_unlink d preserve_files)"
    by (rule cleanup_canonical_dir)
next
  assume "canonical_dir config_name (st_output_dat_dir st)"
  then show "canonical_dir config_name
          (st_output_dat_dir
            (snd (process_all_dats_with_retool e dat_files fl ex collection config_name st)))"
    by (rule process_all_keeps(1) [OF tool names(2,3)])
next
  assume a: "canonical_dir config_name (Some dir) \<and> list_all can_unlink (glob ''.dat'' (files dir))"
  then have del: "\<forall>f\<in>set (glob ''.dat'' (files dir)). can_unlink f"
    by (simp add: list_all_iff)
  from a have c: "canonical_dir config_name (Some dir)" by simp
  from c del show o: "one_per_system config_name
          (cleanup_previous_dats can_unlink (Some dir)
             (existing_processed_files dat_files (Some dir) collection))"
    by (rule cleanup_establishes_main)
  show "one_per_system config_name
          (st_output_dat_dir
            (snd (process_all_dats_with_retool e dat_files fl ex collection config_name
              (st\<lparr>st_output_dat_dir :=
                    cleanup_previous_dats can_unlink (Some dir)
                      (existing_processed_files dat_files (Some dir) collection)\<rparr>))))"
    by (rule process_all_keeps(2) [OF tool names(2,3)]) (simp add: o)
next
  assume o: "one_per_system config_name d"
  from one_per_system_meaning(1) [OF o] show "length (entries_of system_name d) \<le> 1" .
  from one_per_system_meaning(2) [OF o] show "length (dats_of config_name system_name d) \<le> 1" .
  from one_per_system_meaning(3) [OF o]
  show "set (processed_dats d) \<subseteq>
          (\<lambda>k. output_name k config_name ''.dat'') ` fst ` set (load_metadata d)" .
qed

theorem one_per_system_invariant_witness:
  "canonical_dir ''cfg''
     (Some \<lparr>files = [''Sony - PlayStation (Fresh1G1R - cfg).dat'',
                    ''Sony - PlayStation (Fresh1G1R - old).dat'',
                    ''Sega - Saturn (2024) (Fresh1G1R - cfg).dat''],
         meta = Json [(''Sony - PlayStation'',
           \<lparr>input_filename = Some ''Sony - PlayStation - Datfile (77) (2025-10-23 18-11-28).dat'',
            input_path = None, output_path = ''Sony - PlayStation (Fresh1G1R - cfg).dat''\<rparr>)],
         other_paths = []\<rparr>) \<and>
   \<not> one_per_system ''cfg''
     (Some \<lparr>files = [''Sony - PlayStation (Fresh1G1R - cfg).dat'',
                    ''Sony - PlayStation (Fresh1G1R - old).dat'',
                    ''Sega - Saturn (2024) (Fresh1G1R - cfg).dat''],
         meta = Json [(''Sony - PlayStation'',
           \<lparr>input_filename = Some ''Sony - PlayStation - Datfile (77) (2025-10-23 18-11-28).dat'',
            input_path = None, output_path = ''Sony - PlayStation (Fresh1G1R - cfg).dat''\<rparr>)],
         other_paths = []\<rparr>) \<and>
   cleanup_previous_dats (\<lambda>f. True)
     (Some \<lparr>files = [''Sony - PlayStation (Fresh1G1R - cfg).dat'',
                    ''Sony - PlayStation (Fresh1G1R - old).dat'',
                    ''Sega - Saturn (2024) (Fresh1G1R - cfg).dat''],
         meta = Json [(''Sony - PlayStation'',
           \<lparr>input_filename = Some ''Sony - PlayStation - Datfile (77) (2025-10-23 18-11-28).dat'',
            input_path = None, output_path = ''Sony - PlayStation (Fresh1G1R - cfg).dat''\<rparr>)],
         other_paths = []\<rparr>)
     (existing_processed_files
        [''Sony - PlayStation - Datfile (77) (2025-10-23 18-11-28).dat'',
         ''Sega - Saturn - Datfile (12) (2025-11-01 10-00-00).dat'']
        (Some \<lparr>files = [''Sony - PlayStation (Fresh1G1R - cfg).dat'',
                    ''Sony - PlayStation (Fresh1G1R - old).dat'',
                    ''Sega - Saturn (2024) (Fresh1G1R - cfg).dat''],
         meta = Json [(''Sony - PlayStation'',
           \<lparr>input_filename = Some ''Sony - PlayStation - Datfile (77) (2025-10-23 18-11-28).dat'',
            input_path = None, output_path = ''Sony - PlayStation (Fresh1G1R - cfg).dat''\<rparr>)],
         other_paths = []\<rparr>) ''redump'')
   = Some \<lparr>files = [''Sony - PlayStation (Fresh1G1R - cfg).dat''],
         meta = Json [(''Sony - PlayStation'',
           \<lparr>input_filename = Some ''Sony - PlayStation - Datfile (77) (2025-10-23 18-11-28).dat'',
            input_path = None, output_path = ''Sony - PlayStation (Fresh1G1R - cfg).dat''\<rparr>)],
         other_paths = []\<rparr> \<and>
   one_per_system ''cfg''
     (st_output_dat_dir (snd (process_all_dats_with_retool
        \<lparr>script_exists = True,
         retool = (\<lambda>calls cmd. Completed \<lparr>returncode = 0, stdout = Some [], stderr = Some [],
            temp_output_dir = [(''new.dat'', 5)]\<rparr>),
         other_error_shapes = id\<rparr>
        [''Sony - PlayStation - Datfile (77) (2025-10-23 18-11-28).dat'',
         ''Sega - Saturn - Datfile (12) (2025-11-01 10-00-00).dat'']
        [] [] ''redump'' ''cfg''
        \<lparr>st_output_dat_dir =
           Some \<lparr>files = [''Sony - PlayStation (Fresh1G1R - cfg).dat''],
             meta = Json [(''Sony - PlayStation'',
               \<lparr>input_filename = Some ''Sony - PlayStation - Datfile (77) (2025-10-23 18-11-28).dat'',
                input_path = None, output_path = ''Sony - PlayStation (Fresh1G1R - cfg).dat''\<rparr>)],
             other_paths = []\<rparr>,
         st_report_dir = None, st_calls = []\<rparr>))) \<and>
   st_output_dat_dir (snd (process_all_dats_with_retool
        \<lparr>script_exists = True,
         retool = (\<lambda>calls cmd. Completed \<lparr>returncode = 0, stdout = Some [], stderr = Some [],
            temp_output_dir = [(''new.dat'', 5)]\<rparr>),
         other_error_shapes = id\<rparr>
        [''Sony - PlayStation - Datfile (77) (2025-10-23 18-11-28).dat'',
         ''Sega - Saturn - Datfile (12) (2025-11-01 10-00-00).dat'']
        [] [] ''redump'' ''cfg''
        \<lparr>st_output_dat_dir =
           Some \<lparr>files = [''Sony - PlayStation (Fresh1G1R - cfg).dat''],
             meta = Json [(''Sony - PlayStation'',
               \<lparr>input_filename = Some ''Sony - PlayStation - Datfile (77) (2025-10-23 18-11-28).dat'',
                input_path = None, output_path = ''Sony - PlayStation (Fresh1G1R - cfg).dat''\<rparr>)],
             other_paths = []\<rparr>,
         st_report_dir = None, st_calls = []\<rparr>))
   = Some \<lparr>files = [''Sony - PlayStation (Fresh1G1R - cfg).dat'',
                     ''Sega - Saturn (Fresh1G1R - cfg).dat''],
             meta = Json [(''Sony - PlayStation'',
               \<lparr>input_filename = Some ''Sony - PlayStation - Datfile (77) (2025-10-23 18-11-28).dat'',
                input_path = None, output_path = ''Sony - PlayStation (Fresh1G1R - cfg).dat''\<rparr>),
               (''Sega - Saturn'',
               \<lparr>input_filename = Some ''Sega - Saturn - Datfile (12) (2025-11-01 10-00-00).dat'',
                input_path = None, output_path = ''Sega - Saturn (Fresh1G1R - cfg).dat''\<rparr>)],
             other_paths = []\<rparr>"
proof -
  let ?dir = "\<lparr>files = [''Sony - PlayStation (Fresh1G1R - cfg).dat'',
                    ''Sony - PlayStation (Fresh1G1R - old).dat'',
                    ''Sega - Saturn (2024) (Fresh1G1R - cfg).dat''],
         meta = Json [(''Sony - PlayStation'',
           \<lparr>input_filename = Some ''Sony - PlayStation - Datfile (77) (2025-10-23 18-11-28).dat'',
            input_path = None, output_path = ''Sony - PlayStation (Fresh1G1R - cfg).dat''\<rparr>)],
         other_paths = []\<rparr>"
  let ?clean = "\<lparr>files = [''Sony - PlayStation (Fresh1G1R - cfg).dat''],
         meta = Json [(''Sony - PlayStation'',
           \<lparr>input_filename = Some ''Sony - PlayStation - Datfile (77) (2025-10-23 18-11-28).dat'',
            input_path = None, output_path = ''Sony - PlayStation (Fresh1G1R - cfg).dat''\<rparr>)],
         other_paths = []\<rparr>"
  let ?dats = "[''Sony - PlayStation - Datfile (77) (2025-10-23 18-11-28).dat'',
         ''Sega - Saturn - Datfile (12) (2025-11-01 10-00-00).dat'']"
  let ?e = "\<lparr>script_exists = True,
         retool = (\<lambda>calls cmd. Completed \<lparr>returncode = 0, stdout = Some [], stderr = Some [],
            temp_output_dir = [(''new.dat'', 5)]\<rparr>),
         other_error_shapes = id\<rparr>"
  let ?st = "\<lparr>st_output_dat_dir = None, st_report_dir = None, st_calls = []\<rparr>"
  have c: "canonical_dir ''cfg'' (Some ?dir)" by code_simp
  have n: "\<not> one_per_system ''cfg'' (Some ?dir)" by code_simp
  have k: "cleanup_previous_dats (\<lambda>f. True) (Some ?dir)
             (existing_processed_files ?dats (Some ?dir) ''redump'') = Some ?clean"
    by code_simp
  have u: "list_all (\<lambda>f. True) (glob ''.dat'' (files ?dir))" by (simp add: list_all_iff)
  have tool: "\<forall>calls cmd r. retool ?e calls cmd = Completed r \<longrightarrow>
                ''.dat'' \<notin> fst ` set (temp_output_dir r)"
    by auto
  have n1: "CHR ''/'' \<notin> set (hd ?dats)" by simp
  have n2: "\<forall>f\<in>set ?dats. CHR ''/'' \<notin> set f" by simp
  have n3: "CHR ''/'' \<notin> set ''cfg''" by simp
  note T = one_per_system_invariant [where e = ?e and dat_files = ?dats and config_name = "''cfg''"
      and input_dat = "hd ?dats" and dir = ?dir and can_unlink = "\<lambda>f. True"
      and collection = "''redump''" and st = ?st and fl = "[]" and ex = "[]",
      OF tool n1 n2 n3]
  from T have "canonical_dir ''cfg'' (Some ?dir) \<and> list_all (\<lambda>f. True) (glob ''.dat'' (files ?dir)) \<longrightarrow>
        one_per_system ''cfg''
          (st_output_dat_dir
            (snd (process_all_dats_with_retool ?e ?dats [] [] ''redump'' ''cfg''
              (?st\<lparr>st_output_dat_dir :=
                    cleanup_previous_dats (\<lambda>f. True) (Some ?dir)
                      (existing_processed_files ?dats (Some ?dir) ''redump'')\<rparr>))))"
    by blast
  with c u have "one_per_system ''cfg''
          (st_output_dat_dir
            (snd (process_all_dats_with_retool ?e ?dats [] [] ''redump'' ''cfg''
              (?st\<lparr>st_output_dat_dir :=
                    cleanup_previous_dats (\<lambda>f. True) (Some ?dir)
                      (existing_processed_files ?dats (Some ?dir) ''redump'')\<rparr>))))"
    by blast
  then have "one_per_system ''cfg''
          (st_output_dat_dir
            (snd (process_all_dats_with_retool ?e ?dats [] [] ''redump'' ''cfg''
              \<lparr>st_output_dat_dir = Some ?clean, st_report_dir = None, st_calls = []\<rparr>)))"
    unfolding k by simp
  moreover have "st_output_dat_dir (snd (process_all_dats_with_retool
        \<lparr>script_exists = True,
         retool = (\<lambda>calls cmd. Completed \<lparr>returncode = 0, stdout = Some [], stderr = Some [],
            temp_output_dir = [(''new.dat'', 5)]\<rparr>),
         other_error_shapes = id\<rparr>
        [''Sony - PlayStation - Datfile (77) (2025-10-23 18-11-28).dat'',
         ''Sega - Saturn - Datfile (12) (2025-11-01 10-00-00).dat'']
        [] [] ''redump'' ''cfg''
        \<lparr>st_output_dat_dir =
           Some \<lparr>files = [''Sony - PlayStation (Fresh1G1R - cfg).dat''],
             meta = Json [(''Sony - PlayStation'',
               \<lparr>input_filename = Some ''Sony - PlayStation - Datfile (77) (2025-10-23 18-11-28).dat'',
                input_path = None, output_path = ''Sony - PlayStation (Fresh1G1R - cfg).dat''\<rparr>)],
             other_paths = []\<rparr>,
         st_report_dir = None, st_calls = []\<rparr>))
   = Some \<lparr>files = [''Sony - PlayStation (Fresh1G1R - cfg).dat'',
                     ''Sega - Saturn (Fresh1G1R - cfg).dat''],
             meta = Json [(''Sony - PlayStation'',
               \<lparr>input_filename = Some ''Sony - PlayStation - Datfile (77) (2025-10-23 18-11-28).dat'',
                input_path = None, output_path = ''Sony - PlayStation (Fresh1G1R - cfg).dat''\<rparr>),
               (''Sega - Saturn'',
               \<lparr>input_filename = Some ''Sega - Saturn - Datfile (12) (2025-11-01 10-00-00).dat'',
                input_path = None, output_path = ''Sega - Saturn (Fresh1G1R - cfg).dat''\<rparr>)],
             other_paths = []\<rparr>"
    by code_simp
  ultimately show ?thesis using c n k by blast
qed

section \<open>Old raw Redump files\<close>

lemma cleanup_old_redump_fold:
  "fst (fold (\<lambda>old_dat (dir, removed_count).
                   if old_dat = new then (dir, removed_count)
                   else if extract_system_name (path_stem old_dat) ''redump'' = sn
                   then (if can_unlink old_dat then (unlink old_dat dir, removed_count + 1)
                         else (dir, removed_count))
                   else (dir, removed_count)) ds (dir, c))
   = filter (\<lambda>f. \<not> (f \<in> set ds \<and> f \<noteq> new \<and>
                     extract_system_name (path_stem f) ''redump'' = sn \<and> can_unlink f)) dir"
proof (induction ds arbitrary: dir c)
  case Nil
  then show ?case by simp
next
  case (Cons d ds)
  have u: "filter P (unlink d dir) = filter (\<lambda>f. f \<noteq> d \<and> P f) dir" for P
    by (simp add: unlink_def conj_commute)
  show ?case
    by (auto simp: Cons.IH u intro!: filter_cong)
qed


text \<open>
  C4: when the new file is a \<^verbatim>\<open>.dat\<close> of the download directory and every deletion
  succeeds, after \<^verbatim>\<open>cleanup_old_redump_dat\<close> the new file is the only \<^verbatim>\<open>.dat\<close> of its
  normalized system name, every other file is kept in place, and no file is added.
\<close>

theorem cleanup_old_redump_dat_keeps_one:
  assumes "new_dat_path \<in> set output_dir"
    and "suffix ''.dat'' new_dat_path"
    and "\<forall>f\<in>set output_dir. can_unlink f"
  shows "{f \<in> set (glob ''.dat'' (fst (cleanup_old_redump_dat can_unlink new_dat_path output_dir))).
            extract_system_name (path_stem f) ''redump''
            = extract_system_name (path_stem new_dat_path) ''redump''} = {new_dat_path}
       \<and> filter (\<lambda>f. \<not> (suffix ''.dat'' f \<and> extract_system_name (path_stem f) ''redump''
                          = extract_system_name (path_stem new_dat_path) ''redump''))
            (fst (cleanup_old_redump_dat can_unlink new_dat_path output_dir))
          = filter (\<lambda>f. \<not> (suffix ''.dat'' f \<and> extract_system_name (path_stem f) ''redump''
                          = extract_system_name (path_stem new_dat_path) ''redump''))
            output_dir
       \<and> set (fst (cleanup_old_redump_dat can_unlink new_dat_path output_dir)) \<subseteq> set output_dir"
proof -
  let ?sn = "extract_system_name (path_stem new_dat_path) ''redump''"
  have r: "fst (cleanup_old_redump_dat can_unlink new_dat_path output_dir) =
        filter (\<lambda>f. \<not> (suffix ''.dat'' f \<and> f \<noteq> new_dat_path \<and>
                        extract_system_name (path_stem f) ''redump'' = ?sn)) output_dir"
    using assms(1,3)
    unfolding cleanup_old_redump_dat_def Let_def
    by (auto simp: cleanup_old_redump_fold glob_def intro!: filter_cong)
  show ?thesis
    unfolding r using assms(1,2)
    by (auto simp: glob_def intro!: filter_cong)
qed

theorem cleanup_old_redump_dat_keeps_one_witness:
  "''Sony - PlayStation - Datfile (1) (2025-10-23 18-11-28).dat''
     \<in> set [''Sony - PlayStation - Datfile (1) (2025-10-22 18-11-28).dat'',
             ''Sony - PlayStation - Datfile (1) (2025-10-23 18-11-28).dat'',
             ''Sony - PlayStation 2 - Datfile (9) (2025-10-22 18-11-28).dat''] \<and>
   suffix ''.dat'' ''Sony - PlayStation - Datfile (1) (2025-10-23 18-11-28).dat'' \<and>
   {f \<in> set (glob ''.dat'' (fst (cleanup_old_redump_dat (\<lambda>f. True)
        ''Sony - PlayStation - Datfile (1) (2025-10-23 18-11-28).dat''
        [''Sony - PlayStation - Datfile (1) (2025-10-22 18-11-28).dat'',
         ''Sony - PlayStation - Datfile (1) (2025-10-23 18-11-28).dat'',
         ''Sony - PlayStation 2 - Datfile (9) (2025-10-22 18-11-28).dat'']))).
      extract_system_name (path_stem f) ''redump''
      = extract_system_name
          (path_stem ''Sony - PlayStation - Datfile (1) (2025-10-23 18-11-28).dat'') ''redump''}
   = {''Sony - PlayStation - Datfile (1) (2025-10-23 18-11-28).dat''}"
proof -
  let ?new = "''Sony - PlayStation - Datfile (1) (2025-10-23 18-11-28).dat''"
  let ?dir = "[''Sony - PlayStation - Datfile (1) (2025-10-22 18-11-28).dat'', ?new,
               ''Sony - PlayStation 2 - Datfile (9) (2025-10-22 18-11-28).dat'']"
  have h1: "?new \<in> set ?dir" by simp
  have h2: "suffix ''.dat'' ?new" by code_simp
  have h3: "\<forall>f\<in>set ?dir. (\<lambda>f. True) f" by simp
  from conjunct1 [OF cleanup_old_redump_dat_keeps_one [OF h1 h2 h3]] h1 h2
  show ?thesis by blast
qed

section \<open>Retention of reports\<close>

lemma delete_files_all:
  assumes "\<forall>f\<in>set ds. can_unlink (fst f)"
  shows "delete_files can_unlink ds (es, c) = (filter (\<lambda>f. fst f \<notin> fst ` set ds) es, c + length ds)"
  using assms unfolding delete_files_def
proof (induction ds arbitrary: es c)
  case Nil
  then show ?case by simp
next
  case (Cons d ds)
  have u: "filter P (unlink_listing n es) = filter (\<lambda>f. fst f \<noteq> n \<and> P f) es" for P n
    by (simp add: unlink_listing_def conj_commute)
  from Cons show ?case
    by (auto simp: u intro!: filter_cong)
qed

lemma groups_fold:
  assumes "\<forall>kg\<in>set gs. \<forall>f\<in>set (to_delete keep (snd kg)). can_unlink (fst f)"
  shows "fst (fold (\<lambda>(system_name, system_files) acc.
                           if int (length system_files) \<le> keep then acc
                           else delete_files can_unlink
                                  (slice_from keep (sort_key (\<lambda>p. - snd p) system_files)) acc)
                gs (es, c))
         = filter (\<lambda>f. fst f \<notin> fst ` (\<Union>kg\<in>set gs. set (to_delete keep (snd kg)))) es"
  using assms
proof (induction gs arbitrary: es c)
  case Nil
  then show ?case by simp
next
  case (Cons a gs)
  obtain k g where a: "a = (k, g)" by (cases a)
  show ?case
  proof (cases "int (length g) \<le> keep")
    case True
    then have "to_delete keep g = []" by (simp add: to_delete_def)
    with Cons True show ?thesis by (simp add: a)
  next
    case False
    then have td: "to_delete keep g = slice_from keep (sort_key (\<lambda>p. - snd p) g)"
      by (simp add: to_delete_def)
    have all: "\<forall>f\<in>set (slice_from keep (sort_key (\<lambda>p. - snd p) g)). can_unlink (fst f)"
      using Cons.prems by (simp add: a td)
    have rest: "\<forall>kg\<in>set gs. \<forall>f\<in>set (to_delete keep (snd kg)). can_unlink (fst f)"
      using Cons.prems by simp
    show ?thesis
      using False
      by (simp add: a delete_files_all [OF all] Cons.IH [OF rest] td)
         (auto intro!: filter_cong)
  qed
qed

lemma map_of_add_to_group:
  "map_of (add_to_group c f acc) k =
     (if report_group_key c (fst f) = k
      then Some ((case map_of acc k of None \<Rightarrow> [] | Some g \<Rightarrow> g) @ [f])
      else map_of acc k)"
  by (simp add: add_to_group_def Let_def update_conv')

lemma map_of_groups:
  "map_of (fold (add_to_group c) fs acc) k =
     (if filter (\<lambda>f. report_group_key c (fst f) = k) fs = [] then map_of acc k
      else Some ((case map_of acc k of None \<Rightarrow> [] | Some g \<Rightarrow> g)
                 @ filter (\<lambda>f. report_group_key c (fst f) = k) fs))"
proof (induction fs arbitrary: acc)
  case Nil
  then show ?case by simp
next
  case (Cons f fs)
  show ?case
    by (simp add: Cons.IH map_of_add_to_group split: option.splits)
qed

lemma distinct_add_to_group:
  "distinct (map fst acc) \<Longrightarrow> distinct (map fst (add_to_group c f acc))"
  by (simp add: add_to_group_def Let_def distinct_update)

lemma distinct_groups:
  "distinct (map fst acc) \<Longrightarrow> distinct (map fst (fold (add_to_group c) fs acc))"
  by (induction fs arbitrary: acc) (simp_all add: distinct_add_to_group)

lemma groups_set:
  "(k, g) \<in> set (fold (add_to_group c) fs []) \<longleftrightarrow>
   g = filter (\<lambda>f. report_group_key c (fst f) = k) fs \<and> g \<noteq> []"
proof -
  have "distinct (map fst (fold (add_to_group c) fs []))"
    by (rule distinct_groups) simp
  then have "(k, g) \<in> set (fold (add_to_group c) fs []) \<longleftrightarrow>
             map_of (fold (add_to_group c) fs []) k = Some g"
    by simp
  then show ?thesis by (auto simp: map_of_groups)
qed


lemma set_slice_from: "set (slice_from k xs) \<subseteq> set xs"
  by (auto simp: slice_from_def dest: in_set_dropD)

lemma set_to_delete: "set (to_delete keep g) \<subseteq> set g"
  using set_slice_from [of keep "sort_key (\<lambda>p. - snd p) g"] by (auto simp: to_delete_def)

lemma to_delete_Nil: "to_delete keep [] = []"
  by (simp add: to_delete_def slice_from_def)

lemma to_delete_nonneg:
  "0 \<le> keep \<Longrightarrow> to_delete keep g = drop (nat keep) (sort_key (\<lambda>p. - snd p) g)"
  by (auto simp: to_delete_def slice_from_def)

lemma cleanup_old_files_result:
  assumes "\<forall>f\<in>set entries. can_unlink (fst f)"
  shows "fst (cleanup_old_files can_unlink (Some entries) ext keep coll) =
     Some (filter (\<lambda>f. fst f \<notin> fst ` (\<Union>k. set (to_delete keep
              (filter (\<lambda>f. report_group_key coll (fst f) = k) (glob_listing ext entries))))) entries)"
proof (cases "glob_listing ext entries = []")
  case True
  then show ?thesis
    by (simp add: cleanup_old_files_def to_delete_Nil)
next
  case False
  let ?files = "glob_listing ext entries"
  let ?G = "\<lambda>k. filter (\<lambda>f. report_group_key coll (fst f) = k) ?files"
  let ?gs = "fold (add_to_group coll) ?files []"
  have sub: "set ?files \<subseteq> set entries" by (auto simp: glob_listing_def)
  have can: "\<forall>kg\<in>set ?gs. \<forall>f\<in>set (to_delete keep (snd kg)). can_unlink (fst f)"
  proof (intro ballI)
    fix kg f assume kg: "kg \<in> set ?gs" and f: "f \<in> set (to_delete keep (snd kg))"
    obtain k g where "kg = (k, g)" by (cases kg)
    with kg have "g = ?G k" by (simp add: groups_set)
    with f \<open>kg = (k, g)\<close> have "f \<in> set (?G k)" using set_to_delete by fastforce
    then have "f \<in> set entries" using sub by auto
    with assms show "can_unlink (fst f)" by blast
  qed
  have un: "(\<Union>kg\<in>set ?gs. set (to_delete keep (snd kg))) = (\<Union>k. set (to_delete keep (?G k)))"
  proof (intro equalityI subsetI)
    fix f assume "f \<in> (\<Union>kg\<in>set ?gs. set (to_delete keep (snd kg)))"
    then obtain k g where kg: "(k, g) \<in> set ?gs" and f: "f \<in> set (to_delete keep g)" by auto
    from kg have "g = ?G k" by (simp add: groups_set)
    with f show "f \<in> (\<Union>k. set (to_delete keep (?G k)))" by blast
  next
    fix f assume "f \<in> (\<Union>k. set (to_delete keep (?G k)))"
    then obtain k where f: "f \<in> set (to_delete keep (?G k))" by blast
    then have "?G k \<noteq> []" by (auto simp: to_delete_Nil)
    then have "(k, ?G k) \<in> set ?gs" by (simp add: groups_set)
    with f show "f \<in> (\<Union>kg\<in>set ?gs. set (to_delete keep (snd kg)))" by force
  qed
  obtain es c where fo: "fold (\<lambda>(system_name, system_files) acc.
                           if int (length system_files) \<le> keep then acc
                           else delete_files can_unlink
                                  (slice_from keep (sort_key (\<lambda>p. - snd p) system_files)) acc)
                     ?gs (entries, 0) = (es, c)"
    by (cases "fold (\<lambda>(system_name, system_files) acc.
                           if int (length system_files) \<le> keep then acc
                           else delete_files can_unlink
                                  (slice_from keep (sort_key (\<lambda>p. - snd p) system_files)) acc)
                     ?gs (entries, 0)") auto
  have "es = filter (\<lambda>f. fst f \<notin> fst ` (\<Union>kg\<in>set ?gs. set (to_delete keep (snd kg)))) entries"
    using groups_fold [OF can, of entries 0] fo by simp
  then have es: "es = filter (\<lambda>f. fst f \<notin> fst ` (\<Union>k. set (to_delete keep (?G k)))) entries"
    unfolding un .
  have "fst (cleanup_old_files can_unlink (Some entries) ext keep coll) = Some es"
    using False fo by (simp add: cleanup_old_files_def Let_def)
  then show ?thesis unfolding es .
qed


lemma keep_newest:
  fixes g :: listing and n :: nat
  assumes "distinct g"
  defines "S \<equiv> sort_key (\<lambda>p. - snd p) g"
  defines "R \<equiv> filter (\<lambda>f. f \<notin> set (drop n S)) g"
  shows "length R = min n (length g)"
    and "set R \<subseteq> set g"
    and "\<forall>r\<in>set R. \<forall>x\<in>set g - set R. snd x \<le> snd r"
proof -
  have dS: "distinct S" and sS: "set S = set g" and lS: "length S = length g"
    using assms(1) by (simp_all add: S_def)
  have td: "take n S @ drop n S = S" by simp
  have "distinct (take n S @ drop n S)" using dS by simp
  then have disj: "set (take n S) \<inter> set (drop n S) = {}"
    unfolding distinct_append by blast
  have "set (take n S @ drop n S) = set g" using sS by simp
  then have un: "set (take n S) \<union> set (drop n S) = set g"
    unfolding set_append .
  have sR: "set R = set (take n S)"
    using disj un by (auto simp: R_def)
  have "distinct R" using assms(1) by (simp add: R_def)
  then have "length R = card (set R)" by (simp add: distinct_card)
  also have "\<dots> = length (take n S)"
    unfolding sR using dS by (simp add: distinct_card)
  finally show "length R = min n (length g)" using lS by simp
  show "set R \<subseteq> set g" by (auto simp: R_def)
  have "sorted (map (\<lambda>p. - snd p) S)" by (simp add: S_def)
  then have "sorted (map (\<lambda>p. - snd p) (take n S) @ map (\<lambda>p. - snd p) (drop n S))"
    by (simp only: map_append [symmetric] td)
  then have ord: "\<forall>a\<in>set (take n S). \<forall>b\<in>set (drop n S). - snd a \<le> - snd b"
    by (auto simp: sorted_append)
  have "set g - set R = set (drop n S)"
    using disj un sR by auto
  with ord sR show "\<forall>r\<in>set R. \<forall>x\<in>set g - set R. snd x \<le> snd r" by auto
qed


text \<open>
  C5: for a count \<open>keep_count\<close> that is not negative, a directory that exists, and deletions
  that succeed, \<^verbatim>\<open>cleanup_old_files\<close> retains in every group of one key exactly the
  minimum of \<open>keep_count\<close> and the size of the group, and no retained file is older than
  a deleted file of its group. With \<open>keep_count\<close> 7, groups of 3, 7 and 10 files keep 3,
  7 and 7.
\<close>

theorem cleanup_old_files_keeps_newest:
  assumes "0 \<le> keep_count"
    and "distinct (map fst entries)"
    and "\<forall>f\<in>set entries. can_unlink (fst f)"
  shows "\<exists>after. fst (cleanup_old_files can_unlink (Some entries) ext keep_count collection) = Some after \<and>
     (\<forall>k. let G = filter (\<lambda>f. report_group_key collection (fst f) = k) (glob_listing ext entries);
              R = filter (\<lambda>f. report_group_key collection (fst f) = k) (glob_listing ext after)
          in length R = min (nat keep_count) (length G) \<and> set R \<subseteq> set G \<and>
             (\<forall>r\<in>set R. \<forall>x\<in>set G - set R. snd x \<le> snd r))"
proof -
  let ?G = "\<lambda>k. filter (\<lambda>f. report_group_key collection (fst f) = k) (glob_listing ext entries)"
  let ?D = "\<Union>k. set (to_delete keep_count (?G k))"
  let ?after = "filter (\<lambda>f. fst f \<notin> fst ` ?D) entries"
  have res: "fst (cleanup_old_files can_unlink (Some entries) ext keep_count collection) = Some ?after"
    by (rule cleanup_old_files_result [OF assms(3)])
  have dist: "distinct entries" using assms(2) by (simp add: distinct_map)
  have inj: "f = f'" if "f \<in> set entries" "f' \<in> set entries" "fst f = fst f'" for f f'
    using assms(2) that by (meson distinct_map inj_onD)
  have main: "length (filter (\<lambda>f. report_group_key collection (fst f) = k) (glob_listing ext ?after))
                = min (nat keep_count) (length (?G k)) \<and>
              set (filter (\<lambda>f. report_group_key collection (fst f) = k) (glob_listing ext ?after))
                \<subseteq> set (?G k) \<and>
              (\<forall>r\<in>set (filter (\<lambda>f. report_group_key collection (fst f) = k) (glob_listing ext ?after)).
                 \<forall>x\<in>set (?G k) - set (filter (\<lambda>f. report_group_key collection (fst f) = k)
                                          (glob_listing ext ?after)).
                   snd x \<le> snd r)" for k
  proof -
    let ?S = "sort_key (\<lambda>p. - snd p) (?G k)"
    let ?n = "nat keep_count"
    have c1: "filter (\<lambda>f. report_group_key collection (fst f) = k) (glob_listing ext ?after)
          = filter (\<lambda>f. fst f \<notin> fst ` ?D) (?G k)"
      by (auto simp: glob_listing_def intro!: filter_cong)
    have c2: "filter (\<lambda>f. fst f \<notin> fst ` ?D) (?G k) = filter (\<lambda>f. f \<notin> set (drop ?n ?S)) (?G k)"
    proof (rule filter_cong [OF refl])
      fix f assume f: "f \<in> set (?G k)"
      then have fe: "f \<in> set entries" and fk: "report_group_key collection (fst f) = k"
        by (auto simp: glob_listing_def)
      show "(fst f \<notin> fst ` ?D) = (f \<notin> set (drop ?n ?S))"
      proof
        assume "fst f \<notin> fst ` ?D"
        then have "f \<notin> set (to_delete keep_count (?G k))" by force
        then show "f \<notin> set (drop ?n ?S)" by (simp add: to_delete_nonneg [OF assms(1)])
      next
        assume a: "f \<notin> set (drop ?n ?S)"
        show "fst f \<notin> fst ` ?D"
        proof
          assume "fst f \<in> fst ` ?D"
          then obtain f' k' where f': "f' \<in> set (to_delete keep_count (?G k'))" "fst f = fst f'"
            by auto
          from f'(1) have g': "f' \<in> set (?G k')" using set_to_delete by blast
          then have "f' \<in> set entries" "report_group_key collection (fst f') = k'"
            by (auto simp: glob_listing_def)
          with inj [OF fe this(1) f'(2)] fk have "f' = f" "k' = k" by auto
          with f'(1) a show False by (simp add: to_delete_nonneg [OF assms(1)])
        qed
      qed
    qed
    have dG: "distinct (?G k)" using dist by (simp add: glob_listing_def)
    show ?thesis
      unfolding c1 c2 using keep_newest [OF dG, of ?n] by simp
  qed
  show ?thesis
    unfolding res Let_def
    by (rule exI [of _ ?after], rule conjI [OF refl], rule allI, rule main)
qed

theorem cleanup_old_files_keeps_newest_witness:
  "(0::int) \<le> 7 \<and>
   distinct (map fst
     [(''A (Retool 0).txt'', 0), (''A (Retool 1).txt'', 7), (''A (Retool 2).txt'', 4), (''A (Retool 3).txt'', 1), (''A (Retool 4).txt'', 8), (''A (Retool 5).txt'', 5), (''A (Retool 6).txt'', 2), (''A (Retool 7).txt'', 9), (''A (Retool 8).txt'', 6), (''A (Retool 9).txt'', 3), (''B (Retool 0).txt'', 0), (''B (Retool 1).txt'', 1), (''B (Retool 2).txt'', 2), (''notes.md'', 4)]) \<and>
   length (filter (\<lambda>f. report_group_key ''redump'' (fst f) = ''A'')
       (glob_listing ''.txt'' (the (fst (cleanup_old_files (\<lambda>f. True) (Some
         [(''A (Retool 0).txt'', 0), (''A (Retool 1).txt'', 7), (''A (Retool 2).txt'', 4), (''A (Retool 3).txt'', 1), (''A (Retool 4).txt'', 8), (''A (Retool 5).txt'', 5), (''A (Retool 6).txt'', 2), (''A (Retool 7).txt'', 9), (''A (Retool 8).txt'', 6), (''A (Retool 9).txt'', 3), (''B (Retool 0).txt'', 0), (''B (Retool 1).txt'', 1), (''B (Retool 2).txt'', 2), (''notes.md'', 4)]) ''.txt'' 7 ''redump''))))) = 7 \<and>
   length (filter (\<lambda>f. report_group_key ''redump'' (fst f) = ''B'')
       (glob_listing ''.txt'' (the (fst (cleanup_old_files (\<lambda>f. True) (Some
         [(''A (Retool 0).txt'', 0), (''A (Retool 1).txt'', 7), (''A (Retool 2).txt'', 4), (''A (Retool 3).txt'', 1), (''A (Retool 4).txt'', 8), (''A (Retool 5).txt'', 5), (''A (Retool 6).txt'', 2), (''A (Retool 7).txt'', 9), (''A (Retool 8).txt'', 6), (''A (Retool 9).txt'', 3), (''B (Retool 0).txt'', 0), (''B (Retool 1).txt'', 1), (''B (Retool 2).txt'', 2), (''notes.md'', 4)]) ''.txt'' 7 ''redump''))))) = 3"
proof -
  let ?E = "[(''A (Retool 0).txt'', 0), (''A (Retool 1).txt'', 7), (''A (Retool 2).txt'', 4), (''A (Retool 3).txt'', 1), (''A (Retool 4).txt'', 8), (''A (Retool 5).txt'', 5), (''A (Retool 6).txt'', 2), (''A (Retool 7).txt'', 9), (''A (Retool 8).txt'', 6), (''A (Retool 9).txt'', 3), (''B (Retool 0).txt'', 0), (''B (Retool 1).txt'', 1), (''B (Retool 2).txt'', 2), (''notes.md'', 4)]"
  have h1: "(0::int) \<le> 7" by simp
  have h2: "distinct (map fst ?E)" by code_simp
  have h3: "\<forall>f\<in>set ?E. (\<lambda>f. True) (fst f)" by simp
  from cleanup_old_files_keeps_newest [OF h1 h2 h3, of "''.txt''" "''redump''"]
  obtain after where a: "fst (cleanup_old_files (\<lambda>f. True) (Some ?E) ''.txt'' 7 ''redump'') = Some after"
    and b: "\<And>k. length (filter (\<lambda>f. report_group_key ''redump'' (fst f) = k) (glob_listing ''.txt'' after))
              = min (nat 7) (length (filter (\<lambda>f. report_group_key ''redump'' (fst f) = k)
                                       (glob_listing ''.txt'' ?E)))"
    unfolding Let_def by blast
  have gA: "length (filter (\<lambda>f. report_group_key ''redump'' (fst f) = ''A'')
                                       (glob_listing ''.txt'' ?E)) = 10"
    by code_simp
  have gB: "length (filter (\<lambda>f. report_group_key ''redump'' (fst f) = ''B'')
                                       (glob_listing ''.txt'' ?E)) = 3"
    by code_simp
  have "the (fst (cleanup_old_files (\<lambda>f. True) (Some ?E) ''.txt'' 7 ''redump'')) = after"
    unfolding a by simp
  then show ?thesis
    using h2 b [of "''A''"] b [of "''B''"] unfolding gA gB by simp
qed

section \<open>The exit code\<close>

text \<open>
  C9: the process exits with code 0 when \<^verbatim>\<open>main\<close> runs to its end, whatever the runs of
  Retool gave, and with code 1 in every other case: no configuration, no DAT file of any
  collection, a failed setup of Retool, an interrupt or another exception.
\<close>

theorem exit_code_main:
  "exit_code (main can_unlink m) =
     (if (\<exists>configs. discover_configs m = Returns configs \<and> configs \<noteq> []) \<and>
         (\<exists>redump no_intro. redump_dats m = Returns redump \<and> no_intro_dats m = Returns no_intro \<and>
            (redump \<noteq> [] \<or> no_intro \<noteq> [])) \<and>
         clone_retool_if_needed m = Returns True \<and>
         (\<exists>u. prepare_retool m = Returns u) \<and>
         (\<exists>config_settings. settings m = Returns config_settings) \<and>
         fault_while_processing m = None
      then 0 else 1)"
proof (cases "discover_configs m")
  case (Raises x)
  then show ?thesis by (cases x) (simp_all add: main_def exit_code_def DAT_COLLECTIONS_def)
next
  case c: (Returns configs)
  show ?thesis
  proof (cases "configs = []")
    case True
    with c show ?thesis by (simp add: main_def exit_code_def DAT_COLLECTIONS_def)
  next
    case ne: False
    show ?thesis
    proof (cases "redump_dats m")
      case (Raises x)
      with c ne show ?thesis by (cases x) (simp_all add: main_def exit_code_def DAT_COLLECTIONS_def)
    next
      case r: (Returns redump)
      show ?thesis
      proof (cases "no_intro_dats m")
        case (Raises x)
        with c ne r show ?thesis by (cases x) (simp_all add: main_def exit_code_def DAT_COLLECTIONS_def)
      next
        case n: (Returns no_intro)
        show ?thesis
        proof (cases "redump = [] \<and> no_intro = []")
          case True
          with c ne r n show ?thesis by (simp add: main_def exit_code_def DAT_COLLECTIONS_def)
        next
          case dats: False
          then have tot: "sum_list (map (\<lambda>(c, dats). length dats)
                 ((if redump \<noteq> [] then [(''redump'', redump)] else []) @
                  (if no_intro \<noteq> [] then [(''no-intro'', no_intro)] else []))) \<noteq> 0"
            by auto
          show ?thesis
          proof (cases "clone_retool_if_needed m")
            case (Raises x)
            with c ne r n tot show ?thesis
              by (cases x) (simp_all add: main_def exit_code_def Let_def DAT_COLLECTIONS_def)
          next
            case k: (Returns ok)
            show ?thesis
            proof (cases ok)
              case False
              with c ne r n tot k show ?thesis
                by (simp add: main_def exit_code_def Let_def DAT_COLLECTIONS_def)
            next
              case True
              show ?thesis
              proof (cases "prepare_retool m")
                case (Raises x)
                with c ne r n tot k True show ?thesis
                  by (cases x) (simp_all add: main_def exit_code_def Let_def DAT_COLLECTIONS_def)
              next
                case p: (Returns u)
                show ?thesis
                proof (cases "settings m")
                  case (Raises x)
                  with c ne r n tot k True p show ?thesis
                    by (cases x) (simp_all add: main_def exit_code_def Let_def DAT_COLLECTIONS_def)
                next
                  case s: (Returns cs)
                  show ?thesis
                  proof (cases "fault_while_processing m")
                    case None
                    with c ne r n k True p s dats show ?thesis
                      by (auto simp: main_def exit_code_def Let_def DAT_COLLECTIONS_def)
                  next
                    case (Some x)
                    with c ne r n tot k True p s show ?thesis
                      by (cases x) (simp_all add: main_def exit_code_def Let_def DAT_COLLECTIONS_def)
                  qed
                qed
              qed
            qed
          qed
        qed
      qed
    qed
  qed
qed

theorem exit_code_main_witness:
  "failed (fst (process_all_dats_with_retool
      \<lparr>script_exists = True,
       retool = (\<lambda>calls cmd. Completed \<lparr>returncode = 1, stdout = Some ''crash'',
          stderr = Some [], temp_output_dir = []\<rparr>),
       other_error_shapes = id\<rparr>
      [''Sony - PlayStation (2025-10-23 18-11-28) - Datfile (77).dat''] [] [] ''redump'' ''cfg''
      \<lparr>st_output_dat_dir = None, st_report_dir = None, st_calls = []\<rparr>)) \<noteq> [] \<and>
   exit_code (main (\<lambda>f. True)
     \<lparr>discover_configs = Returns [''cfg''],
      redump_dats = Returns [''Sony - PlayStation (2025-10-23 18-11-28) - Datfile (77).dat''],
      no_intro_dats = Returns [],
      clone_retool_if_needed = Returns True,
      prepare_retool = Returns (),
      settings = Returns [((''cfg'', ''redump''), [], [],
         \<lparr>st_output_dat_dir = None, st_report_dir = None, st_calls = []\<rparr>)],
      tool = \<lparr>script_exists = True,
       retool = (\<lambda>calls cmd. Completed \<lparr>returncode = 1, stdout = Some ''crash'',
          stderr = Some [], temp_output_dir = []\<rparr>),
       other_error_shapes = id\<rparr>,
      fault_while_processing = None\<rparr>) = 0"
proof -
  have f: "failed (fst (process_all_dats_with_retool
      \<lparr>script_exists = True,
       retool = (\<lambda>calls cmd. Completed \<lparr>returncode = 1, stdout = Some ''crash'',
          stderr = Some [], temp_output_dir = []\<rparr>),
       other_error_shapes = id\<rparr>
      [''Sony - PlayStation (2025-10-23 18-11-28) - Datfile (77).dat''] [] [] ''redump'' ''cfg''
      \<lparr>st_output_dat_dir = None, st_report_dir = None, st_calls = []\<rparr>)) \<noteq> []"
    by code_simp
  show ?thesis
    using f
    by (simp add: exit_code_main [of "\<lambda>f. True"])
qed

end
